theory Spec2Isabelle
  imports Complex_Main "HOL-Library.Word"
begin

unbundle bit_operations_syntax

section \<open>Data model of the core (core.c)\<close>

type_synonym u8 = "8 word"
type_synonym u16 = "16 word"
type_synonym u32 = "32 word"

text \<open>
  Modelled from the spec: the declarations of core.h (\<^verbatim>\<open>_PM_pin\<close>,
  \<^verbatim>\<open>Protomatter_core\<close>, \<^verbatim>\<open>ProtomatterStatus\<close>) are not part of the
  sources at hand. The fields are the ones core.c reads and writes; their widths are
  those of the locals and parameters core.c copies them from or into
  (\<^verbatim>\<open>uint16_t bitWidth\<close>, \<^verbatim>\<open>uint8_t bitDepth\<close>, \<^verbatim>\<open>uint8_t prevPlane\<close>,
  \<^verbatim>\<open>uint32_t elapsed\<close>, \<^verbatim>\<open>uint32_t count\<close>, ...). A pointer is an address,
  \<open>0\<close> is \<^verbatim>\<open>NULL\<close>; a register address is a natural number.
  \<^verbatim>\<open>swapBuffers\<close>, which core.c only tests, sets to 0 and spins on, is a flag.
\<close>

record PM_pin =
  pin_setReg :: nat
  pin_clearReg :: nat
  pin_bit :: u32
  pin :: u8

record Protomatter_core =
  timer :: nat
  setReg :: nat
  clearReg :: nat
  toggleReg :: nat
  rgbPins :: nat
  rgbMask :: nat
  clockMask :: u32
  rgbAndClockMask :: u32
  addrPortToggle :: nat
  screenData :: nat
  latch :: PM_pin
  oe :: PM_pin
  addr :: nat
  bufferSize :: u32
  bitZeroPeriod :: u32
  minPeriod :: u32
  frameCount :: u32
  width :: u16
  bytesPerElement :: u8
  clockPin :: u8
  parallel :: u8
  numAddressLines :: u8
  portOffset :: u8
  numPlanes :: u8
  numRowPairs :: u8
  doubleBuffer :: bool
  singleAddrPort :: bool
  activeBuffer :: u8
  swapBuffers :: bool
  plane :: u8
  row :: u8
  prevRow :: u8
  remap_rb :: "u16 list"
  remap_g :: "u16 list"

datatype ProtomatterStatus =
  PROTOMATTER_OK | PROTOMATTER_ERR_PINS | PROTOMATTER_ERR_MALLOC | PROTOMATTER_ERR_ARG

text \<open>
  Modelled from the spec: arch.h is not part of the sources at hand, so everything
  core.c takes from it is a parameter. \<open>portToggleRegister = None\<close> stands for
  \<^verbatim>\<open>_PM_portToggleRegister\<close> being undefined, \<open>TIMER_DEFAULT = None\<close> for
  \<^verbatim>\<open>_PM_TIMER_DEFAULT\<close> being undefined. \<open>pow\<close> is the C library's function of
  that name; floating-point values are taken as reals.
\<close>

record arch =
  portOutRegister :: "u8 \<Rightarrow> nat"
  portSetRegister :: "u8 \<Rightarrow> nat"
  portClearRegister :: "u8 \<Rightarrow> nat"
  portToggleRegister :: "(u8 \<Rightarrow> nat) option"
  portBitMask :: "u8 \<Rightarrow> u32"
  byteOffset :: "u8 \<Rightarrow> u8"
  wordOffset :: "u8 \<Rightarrow> u8"
  chunkSize :: nat
  timerFreq :: u32
  minMinPeriod :: u32
  STRICT_32BIT_IO :: bool
  TIMER_DEFAULT :: "nat option"
  sizeof_PM_pin :: nat
  pow :: "real \<Rightarrow> real \<Rightarrow> real"

text \<open>The \<^verbatim>\<open>#if _PM_chunkSize == ...\<close> chain of core.c accepts these unroll factors only.\<close>

definition chunkSize_ok :: "arch \<Rightarrow> bool" where
  "chunkSize_ok a = (chunkSize a \<in> {1, 2, 4, 8, 16, 32, 64})"

definition MAX_REFRESH_HZ :: u32 where
  "MAX_REFRESH_HZ = 250"

definition ROW_DELAY :: nat where
  "ROW_DELAY = 8"

definition GAMMA :: real where
  "GAMMA = 26 / 10"

subsection \<open>What the code does to the hardware\<close>

text \<open>
  Every call into the arch facade and every write to a memory-mapped register is an
  event; a function that touches the hardware returns the events in the order the code
  issues them. \<open>ShiftOut w off n\<close> stands for the \<open>n\<close> expansions of the \<^verbatim>\<open>PEW\<close>
  macro that one call of a \<^verbatim>\<open>blast_*\<close> function runs over elements of \<open>w\<close> bytes
  starting \<open>off\<close> bytes into the screen data.
\<close>

datatype event =
    RegWrite nat u32
  | TimerInit nat
  | TimerStart nat u32
  | TimerStop nat
  | DelayMicroseconds nat
  | PinOutput u8
  | PinHigh u8
  | PinLow u8
  | ClockHoldHigh
  | ClockHoldLow
  | Memset nat u32 u32
  | Fill nat nat u32 u32
  | ShiftOut nat u32 nat

definition PM_clearReg :: "PM_pin \<Rightarrow> event" where
  "PM_clearReg x = RegWrite (pin_clearReg x) (pin_bit x)"

definition PM_setReg :: "PM_pin \<Rightarrow> event" where
  "PM_setReg x = RegWrite (pin_setReg x) (pin_bit x)"

subsection \<open>The allocator and the tables it holds\<close>

text \<open>
  \<open>blocks\<close> maps the address of every live allocation to its content, \<open>brk\<close> is the
  next fresh address, \<open>grants\<close> tells for each coming request of \<^verbatim>\<open>_PM_ALLOCATOR\<close>
  whether it succeeds (none left: it fails), and \<open>released\<close> lists the addresses handed
  to \<^verbatim>\<open>_PM_FREE\<close>, oldest first. A block is raw memory of some size, the copy of
  the RGB pin list, the table of address pins, or the screen data of some size followed
  by the \<^verbatim>\<open>rgbMask\<close> table.
\<close>

datatype block = Raw nat | PinList "u8 list" | AddrTable "PM_pin list" | ScreenBlock nat "u32 list"

record heap =
  blocks :: "nat \<Rightarrow> block option"
  brk :: nat
  grants :: "bool list"
  released :: "nat list"

definition PM_ALLOCATOR :: "nat \<Rightarrow> heap \<Rightarrow> nat \<times> heap" where
  "PM_ALLOCATOR n h =
     (case grants h of
        [] \<Rightarrow> (0, h)
      | ok # rest \<Rightarrow>
          if ok \<and> brk h \<noteq> 0
          then (brk h, h\<lparr>blocks := (blocks h)(brk h \<mapsto> Raw n), brk := brk h + 1, grants := rest\<rparr>)
          else (0, h\<lparr>grants := rest\<rparr>))"

definition PM_FREE :: "nat \<Rightarrow> heap \<Rightarrow> heap" where
  "PM_FREE p h = h\<lparr>blocks := (blocks h)(p := None), released := released h @ [p]\<rparr>"

text \<open>
  The address-line table behind \<^verbatim>\<open>core->addr\<close> and the pin list behind
  \<^verbatim>\<open>core->rgbPins\<close>. Reading an entry the table does not have is undefined in C;
  \<^verbatim>\<open>_PM_begin\<close> and the interrupt handler read zeros there in the model, and
  \<^verbatim>\<open>_PM_stop\<close> has the fault \<open>InvalidPointer\<close> for it.
\<close>

definition null_pin :: PM_pin where
  "null_pin = \<lparr>pin_setReg = 0, pin_clearReg = 0, pin_bit = 0, pin = 0\<rparr>"

definition addr_table :: "heap \<Rightarrow> Protomatter_core \<Rightarrow> PM_pin list" where
  "addr_table h core = (case blocks h (addr core) of Some (AddrTable t) \<Rightarrow> t | _ \<Rightarrow> [])"

definition addr_line :: "PM_pin list \<Rightarrow> nat \<Rightarrow> PM_pin" where
  "addr_line t line = (if line < length t then t ! line else null_pin)"

definition rgbPins_table :: "heap \<Rightarrow> Protomatter_core \<Rightarrow> u8 list" where
  "rgbPins_table h core = (case blocks h (rgbPins core) of Some (PinList t) \<Rightarrow> t | _ \<Rightarrow> [])"

definition rgb_pin :: "u8 list \<Rightarrow> nat \<Rightarrow> u8" where
  "rgb_pin t i = (if i < length t then t ! i else 0)"

text \<open>
  What C leaves undefined and the model keeps apart from a returned status: a division
  by zero, a shift of an \<^verbatim>\<open>int\<close> by 31 or more, an \<^verbatim>\<open>int\<close> product
  beyond 31 bits, a floating-point value cast to an integer type that cannot hold it,
  a loop that never ends, and in \<^verbatim>\<open>_PM_stop\<close> and \<^verbatim>\<open>_PM_free\<close> a store or a read
  through a pointer that is null or does not point into a live allocation
  (\<open>InvalidPointer\<close>) and the release of an address that is not a live allocation
  (\<open>ReleaseOfDead\<close>).
\<close>

datatype fault =
    DivisionByZero | ShiftOutOfRange | SignedOverflow | CastOutOfRange | Diverges
  | InvalidPointer | ReleaseOfDead

section \<open>The shifters (core.c, blast_byte, blast_word, blast_long)\<close>

text \<open>
  \<^verbatim>\<open>uint8_t chunks = (core->width + (_PM_chunkSize - 1)) / _PM_chunkSize;\<close>
  The quotient is computed in \<^verbatim>\<open>int\<close> and stored in eight bits.
\<close>

definition chunks_u8 :: "arch \<Rightarrow> Protomatter_core \<Rightarrow> u8" where
  "chunks_u8 a core = of_nat ((unat (width core) + (chunkSize a - 1)) div chunkSize a)"

definition blast_final_clear :: "arch \<Rightarrow> Protomatter_core \<Rightarrow> nat \<Rightarrow> event list" where
  "blast_final_clear a core w =
     (case portToggleRegister a of
        None \<Rightarrow> []
      | Some _ \<Rightarrow>
          if STRICT_32BIT_IO a then [RegWrite (clearReg core) (rgbAndClockMask core)]
          else [RegWrite (clearReg core + w * unat (portOffset core)) (rgbAndClockMask core)])"

definition blast_byte :: "arch \<Rightarrow> Protomatter_core \<Rightarrow> u32 \<Rightarrow> event list" where
  "blast_byte a core data =
     ShiftOut 1 data (unat (chunks_u8 a core) * chunkSize a) # blast_final_clear a core 1"

definition blast_word :: "arch \<Rightarrow> Protomatter_core \<Rightarrow> u32 \<Rightarrow> event list" where
  "blast_word a core data =
     ShiftOut 2 data (unat (chunks_u8 a core) * chunkSize a) # blast_final_clear a core 2"

definition blast_long :: "arch \<Rightarrow> Protomatter_core \<Rightarrow> u32 \<Rightarrow> event list" where
  "blast_long a core data =
     ShiftOut 4 data (unat (chunks_u8 a core) * chunkSize a) #
     (case portToggleRegister a of
        None \<Rightarrow> []
      | Some _ \<Rightarrow> [RegWrite (clearReg core) (rgbAndClockMask core)])"

section \<open>The interrupt handler (core.c, _PM_row_handler)\<close>

text \<open>
  Lines 524-529: the filtered estimate of the period of bitplane 0, in 32-bit unsigned
  arithmetic.
\<close>

definition update_bitZeroPeriod :: "u32 \<Rightarrow> u8 \<Rightarrow> Protomatter_core \<Rightarrow> Protomatter_core" where
  "update_bitZeroPeriod elapsed prevPlane core =
     (if prevPlane = 1 \<or> numPlanes core = 1
      then
        let core1 = core\<lparr>bitZeroPeriod := (bitZeroPeriod core * 7 + elapsed) div 8\<rparr>
        in if bitZeroPeriod core1 < minPeriod core1
           then core1\<lparr>bitZeroPeriod := minPeriod core1\<rparr>
           else core1
      else core)"

text \<open>
  Lines 531-570. The loops run \<^verbatim>\<open>line\<close> from 0 while it is below
  \<^verbatim>\<open>numAddressLines\<close>, with \<^verbatim>\<open>bit\<close> an eight-bit \<^verbatim>\<open>1 << line\<close>.
\<close>

definition line_bit :: "nat \<Rightarrow> u8" where
  "line_bit line = push_bit line 1"

definition addr_newBits :: "PM_pin list \<Rightarrow> Protomatter_core \<Rightarrow> u32" where
  "addr_newBits t core =
     foldl (\<lambda>acc line. if row core AND line_bit line \<noteq> 0 then acc OR pin_bit (addr_line t line) else acc)
       0 [0 ..< unat (numAddressLines core)]"

definition addr_priorBits :: "PM_pin list \<Rightarrow> Protomatter_core \<Rightarrow> u32" where
  "addr_priorBits t core =
     foldl (\<lambda>acc line. if prevRow core AND line_bit line \<noteq> 0 then acc OR pin_bit (addr_line t line) else acc)
       0 [0 ..< unat (numAddressLines core)]"

definition addr_per_line :: "PM_pin list \<Rightarrow> Protomatter_core \<Rightarrow> event list" where
  "addr_per_line t core =
     concat (map
       (\<lambda>line.
          if row core AND line_bit line \<noteq> prevRow core AND line_bit line
          then [if row core AND line_bit line \<noteq> 0
                then PM_setReg (addr_line t line)
                else PM_clearReg (addr_line t line),
                DelayMicroseconds ROW_DELAY]
          else [])
       [0 ..< unat (numAddressLines core)])"

definition address_update :: "arch \<Rightarrow> PM_pin list \<Rightarrow> u8 \<Rightarrow> Protomatter_core \<Rightarrow> Protomatter_core \<times> event list" where
  "address_update a t prevPlane core =
     (if prevPlane = 0
      then
        (core\<lparr>prevRow := row core\<rparr>,
         if portToggleRegister a \<noteq> None \<and> singleAddrPort core
         then [RegWrite (addrPortToggle core) (addr_newBits t core XOR addr_priorBits t core),
               DelayMicroseconds ROW_DELAY]
         else addr_per_line t core)
      else (core, []))"

text \<open>Lines 572-584: the cursor, the buffer swap and the frame counter.\<close>

definition advance_cursor :: "Protomatter_core \<Rightarrow> Protomatter_core" where
  "advance_cursor core =
     (let core1 = core\<lparr>plane := plane core + 1\<rparr>
      in if plane core1 \<ge> numPlanes core1
         then
           let core2 = core1\<lparr>plane := 0\<rparr>;
               core3 = core2\<lparr>row := row core2 + 1\<rparr>
           in if row core3 \<ge> numRowPairs core3
              then
                let core4 = core3\<lparr>row := 0\<rparr>;
                    core5 = (if swapBuffers core4
                             then core4\<lparr>activeBuffer := 1 - activeBuffer core4, swapBuffers := False\<rparr>
                             else core4)
                in core5\<lparr>frameCount := frameCount core5 + 1\<rparr>
              else core3
         else core1)"

text \<open>Lines 595-602: where in the screen data the bitplane to issue starts.\<close>

definition elementsPerLine :: "arch \<Rightarrow> Protomatter_core \<Rightarrow> u32" where
  "elementsPerLine a core =
     of_nat (chunkSize a * ((unat (width core) + (chunkSize a - 1)) div chunkSize a))"

definition srcOffset :: "arch \<Rightarrow> Protomatter_core \<Rightarrow> u32" where
  "srcOffset a core =
     (let off = elementsPerLine a core *
                of_nat (unat (numPlanes core) * unat (row core) + unat (plane core)) *
                ucast (bytesPerElement core)
      in if doubleBuffer core then off + bufferSize core * ucast (activeBuffer core) else off)"

definition blast :: "arch \<Rightarrow> Protomatter_core \<Rightarrow> event list" where
  "blast a core =
     (if bytesPerElement core = 1 then blast_byte a core (srcOffset a core)
      else if bytesPerElement core = 2 then blast_word a core (srcOffset a core)
      else blast_long a core (srcOffset a core))"

text \<open>
  The handler itself. \<open>elapsed\<close> is what \<^verbatim>\<open>_PM_timerStop\<close> returns. The timer is
  armed with \<^verbatim>\<open>core->bitZeroPeriod << prevPlane\<close>; C leaves a shift of a 32-bit value
  by 32 or more undefined, the model takes all bits to be shifted out there.
\<close>

definition PM_row_handler :: "arch \<Rightarrow> heap \<Rightarrow> u32 \<Rightarrow> Protomatter_core \<Rightarrow> Protomatter_core \<times> event list" where
  "PM_row_handler a h elapsed core =
     (let prevPlane = plane core;
          core1 = update_bitZeroPeriod elapsed prevPlane core;
          (core2, addr_events) = address_update a (addr_table h core1) prevPlane core1;
          core3 = advance_cursor core2
      in (core3,
          [PM_setReg (oe core), PM_clearReg (latch core), PM_setReg (latch core),
           TimerStop (timer core), PM_clearReg (latch core)] @
          addr_events @
          [TimerStart (timer core3) (push_bit (unat prevPlane) (bitZeroPeriod core3)),
           DelayMicroseconds 1, PM_clearReg (oe core3)] @
          blast a core3))"

text \<open>
  The handler run once per timer interrupt, with the elapsed counts the timer reports.
\<close>

fun run_handler :: "arch \<Rightarrow> heap \<Rightarrow> u32 list \<Rightarrow> Protomatter_core \<Rightarrow> Protomatter_core" where
  "run_handler a h [] core = core"
| "run_handler a h (e # es) core = run_handler a h es (fst (PM_row_handler a h e core))"

section \<open>Lifecycle (core.c, _PM_init, _PM_begin, _PM_stop, _PM_resume, _PM_free)\<close>

subsection \<open>_PM_init\<close>

text \<open>
  The core is passed by pointer: \<open>None\<close> is the null pointer, and the fields that
  \<^verbatim>\<open>_PM_init\<close> does not assign keep what the caller's structure held. \<open>timer_arg = 0\<close>
  is a null timer. The address table holds the pin numbers; its other members are
  not assigned before \<^verbatim>\<open>_PM_begin\<close> and are zeros in the model. A caller's list
  shorter than its count is read as zeros past its end (undefined in C).
\<close>

definition PM_init ::
  "arch \<Rightarrow> Protomatter_core option \<Rightarrow> u16 \<Rightarrow> u8 \<Rightarrow> u8 \<Rightarrow> u8 list \<Rightarrow> u8 \<Rightarrow> u8 list \<Rightarrow>
   u8 \<Rightarrow> u8 \<Rightarrow> u8 \<Rightarrow> bool \<Rightarrow> nat \<Rightarrow> heap \<Rightarrow> ProtomatterStatus \<times> Protomatter_core option \<times> heap" where
  "PM_init a core_ptr bitWidth bitDepth rgbCount0 rgbList addrCount0 addrList
           clockPin_arg latchPin oePin doubleBuffer_arg timer_arg h =
     (case core_ptr of
        None \<Rightarrow> (PROTOMATTER_ERR_ARG, None, h)
      | Some core \<Rightarrow>
          let rgbCount = (if rgbCount0 > 5 then 5 else rgbCount0);
              addrCount = (if addrCount0 > 5 then 5 else addrCount0)
          in case (if timer_arg = 0 then TIMER_DEFAULT a else Some timer_arg) of
               None \<Rightarrow> (PROTOMATTER_ERR_ARG, Some core, h)
             | Some timer_val \<Rightarrow>
               let core1 = core\<lparr>timer := timer_val, width := bitWidth, numPlanes := bitDepth,
                                parallel := rgbCount, numAddressLines := addrCount,
                                clockPin := clockPin_arg,
                                latch := (latch core)\<lparr>pin := latchPin\<rparr>,
                                oe := (oe core)\<lparr>pin := oePin\<rparr>,
                                doubleBuffer := doubleBuffer_arg, addr := 0, screenData := 0\<rparr>;
                   rgbCount6 = rgbCount * 6;
                   (p1, h1) = PM_ALLOCATOR (unat rgbCount6 * 1) h;
                   core2 = core1\<lparr>rgbPins := p1\<rparr>
               in if p1 \<noteq> 0
                  then
                    let (p2, h2) = PM_ALLOCATOR (unat addrCount * sizeof_PM_pin a) h1;
                        core3 = core2\<lparr>addr := p2\<rparr>
                    in if p2 \<noteq> 0
                       then
                         (PROTOMATTER_OK, Some core3,
                          h2\<lparr>blocks := (blocks h2)
                                (p1 \<mapsto> PinList (map (rgb_pin rgbList) [0 ..< unat rgbCount6]),
                                 p2 \<mapsto> AddrTable (map (\<lambda>i. null_pin\<lparr>pin := rgb_pin addrList i\<rparr>)
                                                    [0 ..< unat addrCount]))\<rparr>)
                       else (PROTOMATTER_ERR_MALLOC, Some (core3\<lparr>rgbPins := 0\<rparr>), PM_FREE p1 h2)
                  else (PROTOMATTER_ERR_MALLOC, Some core2, h1))"

subsection \<open>_PM_resume\<close>

definition PM_resume :: "Protomatter_core \<Rightarrow> Protomatter_core \<times> event list" where
  "PM_resume core =
     (let core1 = core\<lparr>plane := numPlanes core - 1\<rparr>;
          core2 = core1\<lparr>row := numRowPairs core1 - 1\<rparr>;
          core3 = core2\<lparr>prevRow := (if numRowPairs core2 > 1 then row core2 - 1 else 1)\<rparr>;
          core4 = core3\<lparr>swapBuffers := False, frameCount := 0\<rparr>
      in (core4, [TimerInit (timer core4), TimerStart (timer core4) 1000]))"

subsection \<open>_PM_begin\<close>

text \<open>
  Lines 166-184: every RGB pin must sit on the port of the clock pin; the masks of the
  pins are collected. \<open>None\<close> is the return of \<^verbatim>\<open>PROTOMATTER_ERR_PINS\<close>.
\<close>

fun pins_bitMask :: "arch \<Rightarrow> nat \<Rightarrow> u8 list \<Rightarrow> u32 \<Rightarrow> u32 option" where
  "pins_bitMask a port [] bitMask = Some bitMask"
| "pins_bitMask a port (p # ps) bitMask =
     (if portOutRegister a p \<noteq> port then None
      else pins_bitMask a port ps (bitMask OR portBitMask a p))"

definition initial_bitMask :: "arch \<Rightarrow> Protomatter_core \<Rightarrow> u32" where
  "initial_bitMask a core =
     (case portToggleRegister a of
        Some _ \<Rightarrow> portBitMask a (clockPin core)
      | None \<Rightarrow> 0)"

text \<open>
  The loop counts in eight bits up to \<^verbatim>\<open>core->parallel * 6\<close>, so it never looks
  beyond the first 256 entries.
\<close>

definition begin_bitMask :: "arch \<Rightarrow> Protomatter_core \<Rightarrow> heap \<Rightarrow> u32 option" where
  "begin_bitMask a core h =
     pins_bitMask a (portOutRegister a (clockPin core))
       (map (rgb_pin (rgbPins_table h core)) [0 ..< min (unat (parallel core) * 6) 256])
       (initial_bitMask a core)"

text \<open>Lines 192-200.\<close>

definition byteMask_of :: "u32 \<Rightarrow> u8" where
  "byteMask_of bitMask =
     (let b0 = 0;
          b1 = (if bitMask AND 0xFF000000 \<noteq> 0 then b0 OR 8 else b0);
          b2 = (if bitMask AND 0x00FF0000 \<noteq> 0 then b1 OR 4 else b1);
          b3 = (if bitMask AND 0x0000FF00 \<noteq> 0 then b2 OR 2 else b2);
          b4 = (if bitMask AND 0x000000FF \<noteq> 0 then b3 OR 1 else b3)
      in b4)"

text \<open>Lines 201-218: the \<^verbatim>\<open>switch\<close>.\<close>

definition bytesPerElement_of :: "u8 \<Rightarrow> u8" where
  "bytesPerElement_of byteMask =
     (if byteMask = 1 \<or> byteMask = 2 \<or> byteMask = 4 \<or> byteMask = 8 then 1
      else if byteMask = 3 \<or> byteMask = 12 then 2
      else 4)"

text \<open>
  Lines 220-230. \<^verbatim>\<open>chunks\<close> has eight bits and \<^verbatim>\<open>columns\<close> sixteen; the
  product for \<^verbatim>\<open>screenBytes\<close> is computed in \<^verbatim>\<open>int\<close>. The result is the core
  with \<^verbatim>\<open>bytesPerElement\<close>, \<^verbatim>\<open>numRowPairs\<close> and \<^verbatim>\<open>bufferSize\<close> set, the
  final \<^verbatim>\<open>screenBytes\<close> and \<^verbatim>\<open>rgbMaskBytes\<close>.
\<close>

definition columns_u16 :: "arch \<Rightarrow> Protomatter_core \<Rightarrow> u16" where
  "columns_u16 a core = of_nat (unat (chunks_u8 a core) * chunkSize a)"

definition begin_layout :: "arch \<Rightarrow> u32 \<Rightarrow> Protomatter_core \<Rightarrow> fault + (Protomatter_core \<times> u32 \<times> u32)" where
  "begin_layout a bitMask core =
     (let core1 = core\<lparr>bytesPerElement := bytesPerElement_of (byteMask_of bitMask)\<rparr>
      in if unat (numAddressLines core1) \<ge> 31 then Inl ShiftOutOfRange
         else
           let core2 = core1\<lparr>numRowPairs := of_nat (2 ^ unat (numAddressLines core1))\<rparr>;
               columns = columns_u16 a core2;
               product = unat columns * unat (numRowPairs core2) * unat (numPlanes core2) *
                         unat (bytesPerElement core2)
           in if product \<ge> 2 ^ 31 then Inl SignedOverflow
              else
                let screenBytes = (of_nat product :: u32);
                    core3 = core2\<lparr>bufferSize := screenBytes\<rparr>;
                    screenBytes2 = (if doubleBuffer core3 then screenBytes * 2 else screenBytes);
                    rgbMaskBytes = (of_nat (unat (parallel core3) * 6 * unat (bytesPerElement core3)) :: u32)
                in Inr (core3, screenBytes2, rgbMaskBytes))"

text \<open>
  Lines 249-312: the clock and data masks, the initial fill of the screen data and the
  \<^verbatim>\<open>rgbMask\<close> table, one entry per RGB pin, cut to the width of an element.
\<close>

definition toggle_narrow :: "arch \<Rightarrow> bool" where
  "toggle_narrow a = (portToggleRegister a \<noteq> None \<and> \<not> STRICT_32BIT_IO a)"

definition begin_masks ::
  "arch \<Rightarrow> u8 list \<Rightarrow> u32 \<Rightarrow> u32 \<Rightarrow> Protomatter_core \<Rightarrow> Protomatter_core \<times> u32 list \<times> event list" where
  "begin_masks a pins bitMask screenBytes core =
     (let n = unat (parallel core) * 6;
          clk = portBitMask a (clockPin core)
      in if bytesPerElement core = 1
         then
           let core1 = core\<lparr>portOffset := byteOffset a (rgb_pin pins 0)\<rparr>;
               sh = unat (portOffset core1) * 8;
               (core2, fill) =
                 (if toggle_narrow a
                  then
                    let c1 = core1\<lparr>clockMask := drop_bit sh clk\<rparr>;
                        c2 = c1\<lparr>rgbAndClockMask := drop_bit sh bitMask OR clockMask c1\<rparr>
                    in (c2, [Memset (screenData c2) (clockMask c2) screenBytes])
                  else
                    let c1 = core1\<lparr>clockMask := clk\<rparr>;
                        c2 = c1\<lparr>rgbAndClockMask := bitMask OR clockMask c1\<rparr>
                    in (c2, []))
           in (core2,
               map (\<lambda>i. take_bit 8 (drop_bit sh (portBitMask a (rgb_pin pins i)))) [0 ..< n],
               fill)
         else if bytesPerElement core = 2
         then
           let core1 = core\<lparr>portOffset := wordOffset a (rgb_pin pins 0)\<rparr>;
               sh = unat (portOffset core1) * 16;
               (core2, fill) =
                 (if toggle_narrow a
                  then
                    let c1 = core1\<lparr>clockMask := drop_bit sh clk\<rparr>;
                        c2 = c1\<lparr>rgbAndClockMask := drop_bit sh bitMask OR clockMask c1\<rparr>
                    in (c2, [Fill 2 (screenData c2) (screenBytes div 2) (take_bit 16 (clockMask c2))])
                  else
                    let c1 = core1\<lparr>clockMask := clk\<rparr>;
                        c2 = c1\<lparr>rgbAndClockMask := bitMask OR clockMask c1\<rparr>
                    in (c2,
                        if portToggleRegister a \<noteq> None
                        then [Fill 2 (screenData c2) (screenBytes div 2)
                                (take_bit 16 (drop_bit sh (clockMask c2)))]
                        else []))
           in (core2,
               map (\<lambda>i. take_bit 16 (drop_bit sh (portBitMask a (rgb_pin pins i)))) [0 ..< n],
               fill)
         else
           let core1 = core\<lparr>portOffset := 0\<rparr>;
               core2 = core1\<lparr>clockMask := clk\<rparr>;
               core3 = core2\<lparr>rgbAndClockMask := bitMask OR clockMask core2\<rparr>
           in (core3,
               map (\<lambda>i. portBitMask a (rgb_pin pins i)) [0 ..< n],
               if portToggleRegister a \<noteq> None
               then [Fill 4 (screenData core3) (screenBytes div 4) (clockMask core3)]
               else []))"

text \<open>
  Lines 314-352: the remap tables. Above six bitplanes the entries are
  \<^verbatim>\<open>(uint16_t)(pow((float)i / 31.0, _PM_GAMMA) * top + 0.5)\<close>; the cast drops the
  fraction and is undefined when the integral part does not fit sixteen bits.
\<close>

definition gamma_value :: "arch \<Rightarrow> real \<Rightarrow> nat \<Rightarrow> nat \<Rightarrow> real" where
  "gamma_value a ftop d i = pow a (real i / real d) GAMMA * ftop + 1 / 2"

definition cast_u16_ok :: "real \<Rightarrow> bool" where
  "cast_u16_ok x = (- 1 < x \<and> x < 65536)"

definition cast_u16 :: "real \<Rightarrow> u16" where
  "cast_u16 x = (if x < 0 then 0 else of_nat (nat \<lfloor>x\<rfloor>))"

definition begin_remap :: "arch \<Rightarrow> Protomatter_core \<Rightarrow> fault + Protomatter_core" where
  "begin_remap a core =
     (if numPlanes core < 6
      then
        let shift_rb = (5 - numPlanes core :: u8);
            core1 = core\<lparr>remap_rb := map (\<lambda>i. ucast (drop_bit (unat shift_rb) (of_nat i :: u8))) [0 ..< 32]\<rparr>;
            shift_g = (6 - numPlanes core1 :: u8)
        in Inr (core1\<lparr>remap_g := map (\<lambda>i. ucast (drop_bit (unat shift_g) (of_nat i :: u8))) [0 ..< 64]\<rparr>)
      else if numPlanes core = 6
      then
        let core1 = core\<lparr>remap_rb := map (\<lambda>i. of_nat (push_bit 1 i OR drop_bit 4 i)) [0 ..< 32]\<rparr>
        in Inr (core1\<lparr>remap_g := map of_nat [0 ..< 64]\<rparr>)
      else if unat (numPlanes core) \<ge> 31 then Inl ShiftOutOfRange
      else
        let ftop = real (2 ^ unat (numPlanes core) - 1);
            rb = map (gamma_value a ftop 31) [0 ..< 32];
            g = map (gamma_value a ftop 63) [0 ..< 64]
        in if list_all cast_u16_ok rb \<and> list_all cast_u16_ok g
           then Inr (core\<lparr>remap_rb := map cast_u16 rb, remap_g := map cast_u16 g\<rparr>)
           else Inl CastOutOfRange)"

text \<open>Lines 354-370: the floor of the period of bitplane 0, and the first guess.\<close>

definition begin_minPeriod :: "arch \<Rightarrow> Protomatter_core \<Rightarrow> fault + Protomatter_core" where
  "begin_minPeriod a core =
     (let minPeriodPerFrame = timerFreq a div MAX_REFRESH_HZ
      in if numRowPairs core = 0 then Inl DivisionByZero
         else
           let minPeriodPerLine = minPeriodPerFrame div ucast (numRowPairs core)
           in if unat (numPlanes core) \<ge> 31 then Inl ShiftOutOfRange
              else if numPlanes core = 0 then Inl DivisionByZero
              else
                let core1 = core\<lparr>minPeriod := minPeriodPerLine div (of_nat (2 ^ unat (numPlanes core) - 1))\<rparr>;
                    core2 = (if minPeriod core1 < minMinPeriod a
                             then core1\<lparr>minPeriod := minMinPeriod a\<rparr> else core1);
                    core3 = core2\<lparr>bitZeroPeriod := of_nat (unat (width core2) * 5)\<rparr>
                in Inr (core3\<lparr>activeBuffer := 0\<rparr>))"

text \<open>
  Lines 372-421: the pin bindings are resolved, the pins made outputs and given their
  first levels, and the address lines are set to \<^verbatim>\<open>prevRow\<close>.
\<close>

definition bind_pin :: "arch \<Rightarrow> PM_pin \<Rightarrow> PM_pin" where
  "bind_pin a x = x\<lparr>pin_setReg := portSetRegister a (pin x),
                    pin_clearReg := portClearRegister a (pin x),
                    pin_bit := portBitMask a (pin x)\<rparr>"

definition begin_addr_events :: "PM_pin list \<Rightarrow> Protomatter_core \<Rightarrow> event list" where
  "begin_addr_events t core =
     concat (map
       (\<lambda>line. [PinOutput (pin (addr_line t line)),
                 if prevRow core AND line_bit line \<noteq> 0
                 then PinHigh (pin (addr_line t line))
                 else PinLow (pin (addr_line t line))])
       [0 ..< unat (numAddressLines core)])"

definition begin_pins :: "arch \<Rightarrow> u8 list \<Rightarrow> heap \<Rightarrow> Protomatter_core \<Rightarrow> Protomatter_core \<times> heap \<times> event list" where
  "begin_pins a pins h core =
     (let t = addr_table h core;
          n = unat (parallel core) * 6;
          core1 = core\<lparr>latch := bind_pin a (latch core), oe := bind_pin a (oe core)\<rparr>;
          ev1 = [PinOutput (clockPin core1), PinLow (clockPin core1),
                 PinOutput (pin (latch core1)), PinLow (pin (latch core1)),
                 PinOutput (pin (oe core1)), PinHigh (pin (oe core1))] @
                concat (map (\<lambda>i. [PinOutput (rgb_pin pins i), PinLow (rgb_pin pins i)]) [0 ..< n]);
          core2 = (case portToggleRegister a of
                     Some tr \<Rightarrow> core1\<lparr>addrPortToggle := tr (pin (addr_line t 0)), singleAddrPort := True\<rparr>
                   | None \<Rightarrow> core1);
          core3 = core2\<lparr>prevRow := of_nat (2 ^ unat (numAddressLines core2)) - 2\<rparr>;
          lines = [0 ..< unat (numAddressLines core3)];
          t' = map (\<lambda>line. if line < unat (numAddressLines core3) then bind_pin a (t ! line) else t ! line)
                 [0 ..< length t];
          ev2 = begin_addr_events t core3;
          core4 = (case portToggleRegister a of
                     Some tr \<Rightarrow>
                       if list_all (\<lambda>line. tr (pin (addr_line t line)) = addrPortToggle core3) lines
                       then core3 else core3\<lparr>singleAddrPort := False\<rparr>
                   | None \<Rightarrow> core3);
          core5 = core4\<lparr>setReg := portSetRegister a (clockPin core4),
                        clearReg := portClearRegister a (clockPin core4)\<rparr>;
          core6 = (case portToggleRegister a of
                     Some tr \<Rightarrow> core5\<lparr>toggleReg := tr (clockPin core5)\<rparr>
                   | None \<Rightarrow> core5);
          h' = (if addr core6 \<noteq> 0 \<and> blocks h (addr core6) \<noteq> None
                then h\<lparr>blocks := (blocks h)(addr core6 \<mapsto> AddrTable t')\<rparr> else h)
      in (core6, h', ev1 @ ev2))"

text \<open>
  The function. With \<^verbatim>\<open>core->parallel * 6\<close> beyond 255 the first loop ends only by
  finding a pin on another port.
\<close>

definition PM_begin ::
  "arch \<Rightarrow> Protomatter_core option \<Rightarrow> heap \<Rightarrow>
   fault + (ProtomatterStatus \<times> Protomatter_core option \<times> heap \<times> event list)" where
  "PM_begin a core_ptr h =
     (case core_ptr of
        None \<Rightarrow> Inr (PROTOMATTER_ERR_ARG, None, h, [])
      | Some core \<Rightarrow>
          if rgbPins core = 0 then Inr (PROTOMATTER_ERR_MALLOC, Some core, h, [])
          else
            let pins = rgbPins_table h core;
                n = unat (parallel core) * 6
            in case begin_bitMask a core h of
                 None \<Rightarrow> Inr (PROTOMATTER_ERR_PINS, Some core, h, [])
               | Some bitMask \<Rightarrow>
                   if n > 255 then Inl Diverges
                   else
                     case begin_layout a bitMask core of
                       Inl f \<Rightarrow> Inl f
                     | Inr (core1, screenBytes, rgbMaskBytes) \<Rightarrow>
                         let (p, h1) = PM_ALLOCATOR (unat (screenBytes + rgbMaskBytes)) h;
                             core2 = core1\<lparr>screenData := p\<rparr>
                         in if p = 0 then Inr (PROTOMATTER_ERR_MALLOC, Some core2, h1, [])
                            else
                              let core3 = core2\<lparr>rgbMask := screenData core2 + unat screenBytes\<rparr>;
                                  ev0 = (if portToggleRegister a = None
                                         then [Memset (screenData core3) 0 screenBytes] else []);
                                  (core4, masks, ev1) = begin_masks a pins bitMask screenBytes core3;
                                  h2 = h1\<lparr>blocks := (blocks h1)
                                         (p \<mapsto> ScreenBlock (unat (screenBytes + rgbMaskBytes)) masks)\<rparr>
                              in case begin_remap a core4 of
                                   Inl f \<Rightarrow> Inl f
                                 | Inr core5 \<Rightarrow>
                                     case begin_minPeriod a core5 of
                                       Inl f \<Rightarrow> Inl f
                                     | Inr core6 \<Rightarrow>
                                         let (core7, h3, ev2) = begin_pins a pins h2 core6;
                                             (core8, ev3) = PM_resume core7
                                         in Inr (PROTOMATTER_OK, Some core8, h3, ev0 @ ev1 @ ev2 @ ev3))"

subsection \<open>_PM_stop\<close>

text \<open>
  \<^verbatim>\<open>while (core->swapBuffers);\<close> ends only when the interrupt handler clears the
  flag. \<open>es\<close> are the timer interrupts that arrive while the loop spins, each with the
  elapsed count its handler reads; with the flag set and no interrupt left the loop
  never ends, which is \<open>None\<close>.
\<close>

fun stop_wait :: "arch \<Rightarrow> heap \<Rightarrow> u32 list \<Rightarrow> Protomatter_core \<Rightarrow> (Protomatter_core \<times> event list) option" where
  "stop_wait a h [] core = (if swapBuffers core then None else Some (core, []))"
| "stop_wait a h (e # es) core =
     (if swapBuffers core
      then
        (case stop_wait a h es (fst (PM_row_handler a h e core)) of
           None \<Rightarrow> None
         | Some (core', evs) \<Rightarrow> Some (core', snd (PM_row_handler a h e core) @ evs))
      else Some (core, []))"

text \<open>
  \<^verbatim>\<open>_PM_setReg(core->oe)\<close>, \<^verbatim>\<open>_PM_setReg(core->latch)\<close> and
  \<^verbatim>\<open>_PM_clearReg(core->latch)\<close> store through the register pointers of the pin, which
  only \<^verbatim>\<open>_PM_begin\<close> binds (lines 374-379); the loop over the RGB pins reads
  \<^verbatim>\<open>core->rgbPins[i]\<close> for every \<open>i\<close> below \<^verbatim>\<open>core->parallel * 6\<close>. A store through
  a null register pointer is \<open>InvalidPointer\<close>, and so is a read through a null
  \<^verbatim>\<open>rgbPins\<close> or past the end of the live pin list. The loop counter has eight bits:
  with \<^verbatim>\<open>core->parallel * 6\<close> beyond 255 it reads the entries 0 to 255 and, when all of
  them are there, never ends.
\<close>

definition PM_stop ::
  "arch \<Rightarrow> Protomatter_core option \<Rightarrow> u32 list \<Rightarrow> heap \<Rightarrow> fault + (Protomatter_core option \<times> event list)" where
  "PM_stop a core_ptr es h =
     (case core_ptr of
        None \<Rightarrow> Inr (None, [])
      | Some core \<Rightarrow>
          (case stop_wait a h es core of
             None \<Rightarrow> Inl Diverges
           | Some (core1, ev0) \<Rightarrow>
               let pins = rgbPins_table h core1;
                   n = unat (parallel core1) * 6
               in if pin_setReg (oe core1) = 0 then Inl InvalidPointer
                  else if 0 < n \<and> (rgbPins core1 = 0 \<or> length pins < min n 256)
                  then Inl InvalidPointer
                  else if n > 255 then Inl Diverges
                  else if pin_setReg (latch core1) = 0 \<or> pin_clearReg (latch core1) = 0
                  then Inl InvalidPointer
                  else Inr (Some core1,
                    ev0 @ [TimerStop (timer core1), PM_setReg (oe core1)] @
                    map (\<lambda>i. PinLow (rgb_pin pins i)) [0 ..< n] @
                    concat (replicate (unat (width core1))
                      [PinHigh (clockPin core1), ClockHoldHigh, PinLow (clockPin core1), ClockHoldLow]) @
                    [PM_setReg (latch core1), PM_clearReg (latch core1)])))"

subsection \<open>_PM_free\<close>

text \<open>
  \<^verbatim>\<open>_PM_stop\<close> runs first, and what is undefined there is undefined here. Each of the
  three pointers that is not null is handed to \<^verbatim>\<open>_PM_FREE\<close>, in the order of the
  source; handing it an address that is not a live allocation (one released before, as
  \<^verbatim>\<open>screenData\<close> and \<^verbatim>\<open>addr\<close> are not set to null) is \<open>ReleaseOfDead\<close>.
\<close>

definition PM_free ::
  "arch \<Rightarrow> Protomatter_core option \<Rightarrow> u32 list \<Rightarrow> heap \<Rightarrow>
   fault + (Protomatter_core option \<times> heap \<times> event list)" where
  "PM_free a core_ptr es h =
     (case core_ptr of
        None \<Rightarrow> Inr (None, h, [])
      | Some core \<Rightarrow>
          (case PM_stop a (Some core) es h of
             Inl f \<Rightarrow> Inl f
           | Inr (None, evs) \<Rightarrow> Inr (None, h, evs)
           | Inr (Some core1, evs) \<Rightarrow>
               if screenData core1 \<noteq> 0 \<and> blocks h (screenData core1) = None
               then Inl ReleaseOfDead
               else
                 let h1 = (if screenData core1 \<noteq> 0 then PM_FREE (screenData core1) h else h)
                 in if addr core1 \<noteq> 0 \<and> blocks h1 (addr core1) = None
                    then Inl ReleaseOfDead
                    else
                      let h2 = (if addr core1 \<noteq> 0 then PM_FREE (addr core1) h1 else h1)
                      in if rgbPins core1 \<noteq> 0
                         then
                           if blocks h2 (rgbPins core1) = None then Inl ReleaseOfDead
                           else Inr (Some (core1\<lparr>rgbPins := 0\<rparr>), PM_FREE (rgbPins core1) h2, evs)
                         else Inr (Some core1, h2, evs)))"

subsection \<open>_PM_getFrameCount\<close>

definition PM_getFrameCount :: "Protomatter_core option \<Rightarrow> u32 \<times> Protomatter_core option" where
  "PM_getFrameCount core_ptr =
     (case core_ptr of
        None \<Rightarrow> (0, None)
      | Some core \<Rightarrow> (frameCount core, Some (core\<lparr>frameCount := 0\<rparr>)))"

section \<open>An example configuration\<close>

text \<open>
  A port layout in the manner of a SAMD51: 32 pins to a port, the set, clear and toggle
  registers at fixed offsets from the port, an unroll factor of 8 and a 48 MHz timer.
  \<open>demo_core\<close> and \<open>demo_heap\<close> are the core and the heap after
  \<^verbatim>\<open>_PM_init\<close> and \<^verbatim>\<open>_PM_begin\<close> for one chain of 64 columns, 4 bitplanes and 4
  address lines, with the RGB pins 0-5 and the clock pin 6 in the low byte of the port.
\<close>

definition demo_arch :: arch where
  "demo_arch =
     \<lparr>portOutRegister = (\<lambda>p. 1000 + 1000 * (unat p div 32)),
      portSetRegister = (\<lambda>p. 1008 + 1000 * (unat p div 32)),
      portClearRegister = (\<lambda>p. 1004 + 1000 * (unat p div 32)),
      portToggleRegister = Some (\<lambda>p. 1012 + 1000 * (unat p div 32)),
      portBitMask = (\<lambda>p. push_bit (unat p mod 32) 1),
      byteOffset = (\<lambda>p. of_nat (unat p mod 32 div 8)),
      wordOffset = (\<lambda>p. of_nat (unat p mod 32 div 16)),
      chunkSize = 8,
      timerFreq = 48000000,
      minMinPeriod = 160,
      STRICT_32BIT_IO = False,
      TIMER_DEFAULT = Some 4,
      sizeof_PM_pin = 16,
      pow = (powr)\<rparr>"

definition zero_core :: Protomatter_core where
  "zero_core =
     \<lparr>timer = 0, setReg = 0, clearReg = 0, toggleReg = 0, rgbPins = 0, rgbMask = 0,
      clockMask = 0, rgbAndClockMask = 0, addrPortToggle = 0, screenData = 0,
      latch = null_pin, oe = null_pin, addr = 0, bufferSize = 0, bitZeroPeriod = 0,
      minPeriod = 0, frameCount = 0, width = 0, bytesPerElement = 0, clockPin = 0,
      parallel = 0, numAddressLines = 0, portOffset = 0, numPlanes = 0, numRowPairs = 0,
      doubleBuffer = False, singleAddrPort = False, activeBuffer = 0, swapBuffers = False,
      plane = 0, row = 0, prevRow = 0, remap_rb = [], remap_g = []\<rparr>"

definition fresh_heap :: "bool list \<Rightarrow> heap" where
  "fresh_heap gs = \<lparr>blocks = (\<lambda>_. None), brk = 100, grants = gs, released = []\<rparr>"

definition demo_core :: Protomatter_core where
  "demo_core =
     \<lparr>timer = 4, setReg = 1008, clearReg = 1004, toggleReg = 1012, rgbPins = 100, rgbMask = 4198,
      clockMask = 64, rgbAndClockMask = 127, addrPortToggle = 1012, screenData = 102,
      latch = \<lparr>pin_setReg = 1008, pin_clearReg = 1004, pin_bit = 4096, pin = 12\<rparr>,
      oe = \<lparr>pin_setReg = 1008, pin_clearReg = 1004, pin_bit = 8192, pin = 13\<rparr>,
      addr = 101, bufferSize = 4096, bitZeroPeriod = 320,
      minPeriod = 800, frameCount = 0, width = 64, bytesPerElement = 1, clockPin = 6,
      parallel = 1, numAddressLines = 4, portOffset = 0, numPlanes = 4, numRowPairs = 16,
      doubleBuffer = False, singleAddrPort = True, activeBuffer = 0, swapBuffers = False,
      plane = 3, row = 15, prevRow = 14,
      remap_rb = [0, 0, 1, 1, 2, 2, 3, 3, 4, 4, 5, 5, 6, 6, 7, 7, 8, 8, 9, 9,
                  10, 10, 11, 11, 12, 12, 13, 13, 14, 14, 15, 15],
      remap_g = [0, 0, 0, 0, 1, 1, 1, 1, 2, 2, 2, 2, 3, 3, 3, 3, 4, 4, 4, 4,
                 5, 5, 5, 5, 6, 6, 6, 6, 7, 7, 7, 7, 8, 8, 8, 8, 9, 9, 9, 9,
                 10, 10, 10, 10, 11, 11, 11, 11, 12, 12, 12, 12, 13, 13, 13,
                 13, 14, 14, 14, 14, 15, 15, 15, 15]\<rparr>"

definition demo_heap :: heap where
  "demo_heap =
     \<lparr>blocks = (\<lambda>_. None)
        (100 \<mapsto> PinList [0, 1, 2, 3, 4, 5],
         102 \<mapsto> ScreenBlock 4102 [1, 2, 4, 8, 16, 32],
         101 \<mapsto> AddrTable
           [\<lparr>pin_setReg = 1008, pin_clearReg = 1004, pin_bit = 256, pin = 8\<rparr>,
            \<lparr>pin_setReg = 1008, pin_clearReg = 1004, pin_bit = 512, pin = 9\<rparr>,
            \<lparr>pin_setReg = 1008, pin_clearReg = 1004, pin_bit = 1024, pin = 10\<rparr>,
            \<lparr>pin_setReg = 1008, pin_clearReg = 1004, pin_bit = 2048, pin = 11\<rparr>]),
      brk = 103, grants = [], released = []\<rparr>"

text \<open>
  The core and the heap as \<^verbatim>\<open>_PM_init\<close> leaves them for this configuration, the events
  of the \<^verbatim>\<open>_PM_begin\<close> that follows, and the heap of an \<^verbatim>\<open>_PM_init\<close> whose last
  RGB pin (pin 40) sits on the second port.
\<close>

definition demo_init_core :: Protomatter_core where
  "demo_init_core =
     zero_core\<lparr>timer := 4, width := 64, numPlanes := 4, parallel := 1, numAddressLines := 4,
               clockPin := 6, latch := null_pin\<lparr>pin := 12\<rparr>, oe := null_pin\<lparr>pin := 13\<rparr>,
               rgbPins := 100, addr := 101\<rparr>"

definition demo_init_heap :: heap where
  "demo_init_heap =
     \<lparr>blocks = (\<lambda>_. None)
        (100 \<mapsto> PinList [0, 1, 2, 3, 4, 5],
         101 \<mapsto> AddrTable
           [null_pin\<lparr>pin := 8\<rparr>, null_pin\<lparr>pin := 9\<rparr>, null_pin\<lparr>pin := 10\<rparr>, null_pin\<lparr>pin := 11\<rparr>]),
      brk = 102, grants = [True], released = []\<rparr>"

definition demo_events :: "event list" where
  "demo_events =
     [Memset 102 64 4096, PinOutput 6, PinLow 6, PinOutput 12,
      PinLow 12, PinOutput 13, PinHigh 13, PinOutput 0, PinLow 0,
      PinOutput 1, PinLow 1, PinOutput 2, PinLow 2, PinOutput 3,
      PinLow 3, PinOutput 4, PinLow 4, PinOutput 5, PinLow 5,
      PinOutput 8, PinLow 8, PinOutput 9, PinHigh 9, PinOutput 10,
      PinHigh 10, PinOutput 11, PinHigh 11, TimerInit 4,
      TimerStart 4 1000]"



section \<open>Notions used to state the properties\<close>

text \<open>
  The guards of lines 573 and 575 taken together: the step in which the handler rolls
  both the bitplane and the row over, which is the frame boundary.
\<close>

definition frame_boundary :: "Protomatter_core \<Rightarrow> bool" where
  "frame_boundary core = (plane core + 1 \<ge> numPlanes core \<and> row core + 1 \<ge> numRowPairs core)"

text \<open>
  The position of the cursor in row-major order, as line 598 computes it
  (\<^verbatim>\<open>core->numPlanes * core->row + core->plane\<close>), the number of positions, and the
  cursor being inside them.
\<close>

definition cursor_index :: "Protomatter_core \<Rightarrow> nat" where
  "cursor_index core = unat (numPlanes core) * unat (row core) + unat (plane core)"

definition cursor_period :: "Protomatter_core \<Rightarrow> nat" where
  "cursor_period core = unat (numRowPairs core) * unat (numPlanes core)"

definition cursor_in_range :: "Protomatter_core \<Rightarrow> bool" where
  "cursor_in_range core = (plane core < numPlanes core \<and> row core < numRowPairs core)"

text \<open>How often a run of the handler brings the cursor to row 0, bitplane 0.\<close>

fun reentries :: "arch \<Rightarrow> heap \<Rightarrow> u32 list \<Rightarrow> Protomatter_core \<Rightarrow> nat" where
  "reentries a h [] core = 0"
| "reentries a h (e # es) core =
     (let core1 = fst (PM_row_handler a h e core)
      in (if row core1 = 0 \<and> plane core1 = 0 then 1 else 0) + reentries a h es core1)"

text \<open>The tick counts the timer is started with, in the order of the events.\<close>

fun timer_starts :: "event list \<Rightarrow> u32 list" where
  "timer_starts [] = []"
| "timer_starts (TimerStart t n # evs) = n # timer_starts evs"
| "timer_starts (_ # evs) = timer_starts evs"

text \<open>
  The classification of the layout planner in the words of the specification: all set
  bits of the mask within one octet of the port, within its lower or its upper
  half-word, or neither. A union of pin masks has a bit set; the mask without any bit is
  not counted as lying within an octet or a half-word.
\<close>

definition within_region :: "u32 \<Rightarrow> u32 \<Rightarrow> bool" where
  "within_region region bitMask = (bitMask AND NOT region = 0)"

definition spec_one_octet :: "u32 \<Rightarrow> bool" where
  "spec_one_octet bitMask =
     (within_region 0x000000FF bitMask \<or> within_region 0x0000FF00 bitMask \<or>
      within_region 0x00FF0000 bitMask \<or> within_region 0xFF000000 bitMask)"

definition spec_half_word :: "u32 \<Rightarrow> bool" where
  "spec_half_word bitMask =
     (within_region 0x0000FFFF bitMask \<or> within_region 0xFFFF0000 bitMask)"

definition spec_element_width :: "u32 \<Rightarrow> u8" where
  "spec_element_width bitMask =
     (if bitMask \<noteq> 0 \<and> spec_one_octet bitMask then 1
      else if bitMask \<noteq> 0 \<and> spec_half_word bitMask then 2
      else 4)"

text \<open>
  What the C library promises of \<^verbatim>\<open>pow\<close> on the unit interval, for the exponent
  \<^verbatim>\<open>_PM_GAMMA\<close>: the result stays in the unit interval.
\<close>

definition pow_unit_range :: "arch \<Rightarrow> bool" where
  "pow_unit_range a = (\<forall>x. 0 \<le> x \<and> x \<le> 1 \<longrightarrow> 0 \<le> pow a x GAMMA \<and> pow a x GAMMA \<le> 1)"

text \<open>The pointers among \<open>ps\<close> that are not null, in order.\<close>

definition non_null :: "nat list \<Rightarrow> nat list" where
  "non_null ps = filter (\<lambda>p. p \<noteq> 0) ps"

text \<open>
  What makes a \<^verbatim>\<open>_PM_free\<close> defined from its first statement to its last: the OE and
  latch pins are bound, the loop counter of \<^verbatim>\<open>_PM_stop\<close> can reach its bound, the pin
  list is live and has an entry for each RGB pin, and the pointers that are not null are
  distinct live allocations.
\<close>

definition free_defined :: "heap \<Rightarrow> Protomatter_core \<Rightarrow> bool" where
  "free_defined h c =
     (pin_setReg (oe c) \<noteq> 0 \<and> pin_setReg (latch c) \<noteq> 0 \<and> pin_clearReg (latch c) \<noteq> 0 \<and>
      unat (parallel c) * 6 \<le> 255 \<and>
      (unat (parallel c) = 0 \<or>
       rgbPins c \<noteq> 0 \<and> unat (parallel c) * 6 \<le> length (rgbPins_table h c)) \<and>
      (screenData c = 0 \<or> blocks h (screenData c) \<noteq> None) \<and>
      (addr c = 0 \<or> blocks h (addr c) \<noteq> None \<and> addr c \<noteq> screenData c) \<and>
      (rgbPins c = 0 \<or>
       blocks h (rgbPins c) \<noteq> None \<and> rgbPins c \<noteq> screenData c \<and> rgbPins c \<noteq> addr c))"

section \<open>The interrupt handler: auxiliary facts\<close>

lemma update_bzp_frame [simp]:
  "plane (update_bitZeroPeriod e p c) = plane c"
  "row (update_bitZeroPeriod e p c) = row c"
  "numPlanes (update_bitZeroPeriod e p c) = numPlanes c"
  "numRowPairs (update_bitZeroPeriod e p c) = numRowPairs c"
  "swapBuffers (update_bitZeroPeriod e p c) = swapBuffers c"
  "activeBuffer (update_bitZeroPeriod e p c) = activeBuffer c"
  "frameCount (update_bitZeroPeriod e p c) = frameCount c"
  "timer (update_bitZeroPeriod e p c) = timer c"
  by (simp_all add: update_bitZeroPeriod_def Let_def)

lemma address_update_frame [simp]:
  "plane (fst (address_update a t p c)) = plane c"
  "row (fst (address_update a t p c)) = row c"
  "numPlanes (fst (address_update a t p c)) = numPlanes c"
  "numRowPairs (fst (address_update a t p c)) = numRowPairs c"
  "swapBuffers (fst (address_update a t p c)) = swapBuffers c"
  "activeBuffer (fst (address_update a t p c)) = activeBuffer c"
  "frameCount (fst (address_update a t p c)) = frameCount c"
  "bitZeroPeriod (fst (address_update a t p c)) = bitZeroPeriod c"
  "timer (fst (address_update a t p c)) = timer c"
  by (simp_all add: address_update_def)

lemma advance_cursor_frame [simp]:
  "numPlanes (advance_cursor c) = numPlanes c"
  "numRowPairs (advance_cursor c) = numRowPairs c"
  "bitZeroPeriod (advance_cursor c) = bitZeroPeriod c"
  "timer (advance_cursor c) = timer c"
  by (simp_all add: advance_cursor_def Let_def)

lemma handler_core:
  "fst (PM_row_handler a h e c) =
     advance_cursor (fst (address_update a (addr_table h (update_bitZeroPeriod e (plane c) c)) (plane c)
        (update_bitZeroPeriod e (plane c) c)))"
  by (simp add: PM_row_handler_def Let_def split: prod.split)

lemma advance_swap:
  "swapBuffers (advance_cursor c) = (swapBuffers c \<and> \<not> frame_boundary c)"
  "activeBuffer (advance_cursor c) = (if swapBuffers c \<and> frame_boundary c then 1 - activeBuffer c else activeBuffer c)"
  "frameCount (advance_cursor c) = (if frame_boundary c then frameCount c + 1 else frameCount c)"
  "plane (advance_cursor c) = (if plane c + 1 \<ge> numPlanes c then 0 else plane c + 1)"
  "row (advance_cursor c) = (if plane c + 1 \<ge> numPlanes c then (if row c + 1 \<ge> numRowPairs c then 0 else row c + 1) else row c)"
  by (auto simp add: advance_cursor_def Let_def frame_boundary_def)

lemma fb_upd [simp]: "frame_boundary (fst (address_update a t p (update_bitZeroPeriod e p' c))) = frame_boundary c"
  by (simp add: frame_boundary_def)

lemma swap_step:
  "(swapBuffers c \<and> \<not> swapBuffers (fst (PM_row_handler a h e c)) \<longrightarrow>
      row (fst (PM_row_handler a h e c)) = 0 \<and> plane (fst (PM_row_handler a h e c)) = 0 \<and>
      activeBuffer (fst (PM_row_handler a h e c)) = 1 - activeBuffer c) \<and>
   (swapBuffers c \<and> frame_boundary c \<longrightarrow>
      \<not> swapBuffers (fst (PM_row_handler a h e c)) \<and>
      activeBuffer (fst (PM_row_handler a h e c)) = 1 - activeBuffer c) \<and>
   (\<not> swapBuffers c \<longrightarrow>
      \<not> swapBuffers (fst (PM_row_handler a h e c)) \<and>
      activeBuffer (fst (PM_row_handler a h e c)) = activeBuffer c) \<and>
   (\<not> frame_boundary c \<longrightarrow>
      swapBuffers (fst (PM_row_handler a h e c)) = swapBuffers c \<and>
      activeBuffer (fst (PM_row_handler a h e c)) = activeBuffer c)"
  by (simp add: handler_core advance_swap) (auto simp: frame_boundary_def)

lemma u8_succ_below:
  fixes x y :: u8
  assumes "x < y"
  shows "unat (x + 1) = Suc (unat x)"
proof -
  have "unat x < unat y" using assms by (simp add: word_less_nat_alt)
  moreover have "unat y < 256" using unsigned_less [of y, where 'a = nat] by simp
  ultimately have "unat x + 1 < 256" by simp
  then show ?thesis by (simp add: unat_word_ariths)
qed

lemma index_bound:
  fixes P R p r :: nat
  assumes "p < P" "r < R"
  shows "P * r + p < R * P"
proof -
  have "P * r + p < P * r + P" using assms by simp
  also have "\<dots> = P * Suc r" by simp
  also have "\<dots> \<le> P * R" using assms by (intro mult_le_mono2) simp
  finally show ?thesis by (simp add: mult.commute)
qed

lemma advance_in_range:
  assumes "cursor_in_range c"
  shows "cursor_in_range (advance_cursor c)"
    and "cursor_index (advance_cursor c) = (cursor_index c + 1) mod cursor_period c"
    and "frame_boundary c \<longleftrightarrow> cursor_index c + 1 = cursor_period c"
    and "cursor_index c < cursor_period c"
proof -
  let ?P = "unat (numPlanes c)" and ?R = "unat (numRowPairs c)"
  let ?p = "unat (plane c)" and ?r = "unat (row c)"
  from assms have pl: "plane c < numPlanes c" and rw: "row c < numRowPairs c"
    by (simp_all add: cursor_in_range_def)
  have p: "?p < ?P" and r: "?r < ?R" using pl rw by (simp_all add: word_less_nat_alt)
  have p1: "unat (plane c + 1) = Suc ?p" by (rule u8_succ_below [OF pl])
  have r1: "unat (row c + 1) = Suc ?r" by (rule u8_succ_below [OF rw])
  have pge: "numPlanes c \<le> plane c + 1 \<longleftrightarrow> Suc ?p = ?P"
    using p by (auto simp add: word_le_nat_alt p1)
  have rge: "numRowPairs c \<le> row c + 1 \<longleftrightarrow> Suc ?r = ?R"
    using r by (auto simp add: word_le_nat_alt r1)
  have P0: "0 < numPlanes c" using p by (simp add: word_less_nat_alt)
  have R0: "0 < numRowPairs c" using r by (simp add: word_less_nat_alt)
  show "cursor_index c < cursor_period c"
    using index_bound [OF p r] by (simp add: cursor_index_def cursor_period_def)
  show "cursor_in_range (advance_cursor c)"
    using P0 R0 pl rw by (auto simp add: cursor_in_range_def advance_swap not_le)
  show "frame_boundary c \<longleftrightarrow> cursor_index c + 1 = cursor_period c"
  proof
    assume "frame_boundary c"
    then have "Suc ?p = ?P" "Suc ?r = ?R" using pge rge by (simp_all add: frame_boundary_def)
    then have "?P * ?r + ?p + 1 = ?R * ?P" 
      by (metis add.assoc mult.commute mult_Suc_right plus_1_eq_Suc add.commute)
    then show "cursor_index c + 1 = cursor_period c"
      by (simp add: cursor_index_def cursor_period_def)
  next
    assume eq: "cursor_index c + 1 = cursor_period c"
    have "Suc ?p = ?P"
    proof (rule ccontr)
      assume "Suc ?p \<noteq> ?P"
      with p have "Suc ?p < ?P" by simp
      then have "?P * ?r + Suc ?p < ?R * ?P" using r by (rule index_bound)
      with eq show False by (simp add: cursor_index_def cursor_period_def)
    qed
    moreover have "Suc ?r = ?R"
    proof (rule ccontr)
      assume "Suc ?r \<noteq> ?R"
      with r have "Suc ?r < ?R" by simp
      from index_bound [OF p this] have "?P * Suc ?r + ?p < ?R * ?P" .
      with eq p show False by (simp add: cursor_index_def cursor_period_def)
    qed
    ultimately show "frame_boundary c" using pge rge by (simp add: frame_boundary_def)
  qed
  show "cursor_index (advance_cursor c) = (cursor_index c + 1) mod cursor_period c"
  proof (cases "Suc ?p = ?P")
    case False
    with p have lt: "Suc ?p < ?P" by simp
    have "?P * ?r + Suc ?p < ?R * ?P" using lt r by (rule index_bound)
    then show ?thesis using False pge
      by (simp add: cursor_index_def cursor_period_def advance_swap p1)
  next
    case True
    show ?thesis
    proof (cases "Suc ?r = ?R")
      case False
      with r have lt: "Suc ?r < ?R" by simp
      from index_bound [OF p lt] have "?P * Suc ?r + ?p < ?R * ?P" .
      then have "?P * ?r + ?p + 1 < ?R * ?P" using p by simp
      moreover have "?P * ?r + ?p + 1 = ?P * Suc ?r" using True by simp
      ultimately show ?thesis using True False pge rge
        by (simp add: cursor_index_def cursor_period_def advance_swap r1)
    next
      case False2: True
      have "?P * ?r + ?p + 1 = ?R * ?P" using True False2
        by (metis add.assoc mult.commute mult_Suc_right plus_1_eq_Suc add.commute)
      then show ?thesis using True False2 pge rge
        by (simp add: cursor_index_def cursor_period_def advance_swap)
    qed
  qed
qed

lemma handler_in_range:
  assumes "cursor_in_range c"
  shows "cursor_in_range (fst (PM_row_handler a h e c))"
    and "cursor_index (fst (PM_row_handler a h e c)) = (cursor_index c + 1) mod cursor_period c"
    and "cursor_period (fst (PM_row_handler a h e c)) = cursor_period c"
    and "frameCount (fst (PM_row_handler a h e c)) =
           frameCount c + of_nat ((cursor_index c + 1) div cursor_period c)"
    and "swapBuffers (fst (PM_row_handler a h e c)) =
           (swapBuffers c \<and> cursor_index c + 1 < cursor_period c)"
    and "activeBuffer (fst (PM_row_handler a h e c)) =
           (if swapBuffers c \<and> cursor_period c \<le> cursor_index c + 1
            then 1 - activeBuffer c else activeBuffer c)"
proof -
  let ?m = "fst (address_update a (addr_table h (update_bitZeroPeriod e (plane c) c)) (plane c)
        (update_bitZeroPeriod e (plane c) c))"
  have m: "cursor_in_range ?m" using assms by (simp add: cursor_in_range_def)
  have mi: "cursor_index ?m = cursor_index c" by (simp add: cursor_index_def)
  have mp: "cursor_period ?m = cursor_period c" by (simp add: cursor_period_def)
  have mb: "frame_boundary ?m = frame_boundary c" by simp
  note st = advance_in_range [OF m, unfolded mi mp mb]
  show "cursor_in_range (fst (PM_row_handler a h e c))"
    using st(1) by (simp add: handler_core)
  show "cursor_index (fst (PM_row_handler a h e c)) = (cursor_index c + 1) mod cursor_period c"
    using st(2) by (simp add: handler_core)
  show "cursor_period (fst (PM_row_handler a h e c)) = cursor_period c"
    by (simp add: handler_core cursor_period_def)
  have lt: "cursor_index c + 1 \<le> cursor_period c" using st(4) by simp
  have dv: "(cursor_index c + 1) div cursor_period c = (if frame_boundary c then 1 else 0)"
  proof (cases "frame_boundary c")
    case True
    then have "cursor_index c + 1 = cursor_period c" using st(3) by simp
    then show ?thesis using True by simp
  next
    case False
    then have "cursor_index c + 1 < cursor_period c" using st(3) lt by simp
    then show ?thesis using False by simp
  qed
  show "frameCount (fst (PM_row_handler a h e c)) =
           frameCount c + of_nat ((cursor_index c + 1) div cursor_period c)"
    unfolding dv by (simp add: handler_core advance_swap)
  show "swapBuffers (fst (PM_row_handler a h e c)) =
           (swapBuffers c \<and> cursor_index c + 1 < cursor_period c)"
    using st(3) lt by (auto simp add: handler_core advance_swap)
  show "activeBuffer (fst (PM_row_handler a h e c)) =
           (if swapBuffers c \<and> cursor_period c \<le> cursor_index c + 1
            then 1 - activeBuffer c else activeBuffer c)"
    using st(3) lt by (auto simp add: handler_core advance_swap)
qed

lemma div_carry:
  fixes a b n :: nat
  shows "(a + b) div n = a div n + (a mod n + b) div n"
proof (cases "n = 0")
  case True
  then show ?thesis by simp
next
  case False
  have "a + b = a div n * n + (a mod n + b)" by simp
  then have "(a + b) div n = (a div n * n + (a mod n + b)) div n" by simp
  also have "\<dots> = a div n + (a mod n + b) div n" using False by (rule div_mult_self3)
  finally show ?thesis .
qed

lemma run_in_range:
  assumes "cursor_in_range c"
  shows "cursor_in_range (run_handler a h es c) \<and>
         cursor_period (run_handler a h es c) = cursor_period c \<and>
         cursor_index (run_handler a h es c) = (cursor_index c + length es) mod cursor_period c \<and>
         frameCount (run_handler a h es c) =
           frameCount c + of_nat ((cursor_index c + length es) div cursor_period c) \<and>
         swapBuffers (run_handler a h es c) =
           (swapBuffers c \<and> cursor_index c + length es < cursor_period c) \<and>
         activeBuffer (run_handler a h es c) =
           (if swapBuffers c \<and> cursor_period c \<le> cursor_index c + length es
            then 1 - activeBuffer c else activeBuffer c)"
  using assms
proof (induction es arbitrary: c)
  case Nil
  from Nil advance_in_range(4) [OF Nil] show ?case by simp
next
  case (Cons e es)
  let ?c1 = "fst (PM_row_handler a h e c)"
  let ?N = "cursor_period c"
  note h1 = handler_in_range [OF Cons.prems, of a h e]
  note ih = Cons.IH [OF h1(1), unfolded h1(2) h1(3)]
  have lt: "cursor_index c < ?N" by (rule advance_in_range(4) [OF Cons.prems])
  have idx: "((cursor_index c + 1) mod ?N + length es) mod ?N = (cursor_index c + length (e # es)) mod ?N"
    by (simp add: mod_add_left_eq add.assoc)
  have fc: "(cursor_index c + 1) div ?N + ((cursor_index c + 1) mod ?N + length es) div ?N
          = (cursor_index c + length (e # es)) div ?N"
    using div_carry [of "cursor_index c + 1" "length es" ?N] by (simp add: add.assoc)
  have sw: "(cursor_index c + 1 < ?N \<and> (cursor_index c + 1) mod ?N + length es < ?N)
          \<longleftrightarrow> cursor_index c + length (e # es) < ?N"
    by auto
  have "frameCount (run_handler a h (e # es) c) =
        frameCount c + of_nat ((cursor_index c + 1) div ?N) +
          of_nat (((cursor_index c + 1) mod ?N + length es) div ?N)"
    using ih h1(4) by simp
  also have "\<dots> = frameCount c + of_nat ((cursor_index c + length (e # es)) div ?N)"
    unfolding fc [symmetric] by (simp add: add.assoc)
  finally have F: "frameCount (run_handler a h (e # es) c) =
      frameCount c + of_nat ((cursor_index c + length (e # es)) div ?N)" .
  have S: "swapBuffers (run_handler a h (e # es) c) =
           (swapBuffers c \<and> cursor_index c + length (e # es) < ?N)"
    using ih h1(5) sw by auto
  have A: "activeBuffer (run_handler a h (e # es) c) =
           (if swapBuffers c \<and> ?N \<le> cursor_index c + length (e # es)
            then 1 - activeBuffer c else activeBuffer c)"
  proof (cases "swapBuffers c \<and> ?N \<le> cursor_index c + 1")
    case True
    then have "\<not> swapBuffers ?c1" using h1(5) by simp
    then have "activeBuffer (run_handler a h (e # es) c) = activeBuffer ?c1" using ih by simp
    then show ?thesis using True h1(6) by simp
  next
    case False
    have "activeBuffer ?c1 =
           (if swapBuffers c \<and> ?N \<le> cursor_index c + 1 then 1 - activeBuffer c else activeBuffer c)"
      by (rule h1(6))
    also have "\<dots> = activeBuffer c" using False by (simp only: if_False)
    finally have ab: "activeBuffer ?c1 = activeBuffer c" .
    show ?thesis
    proof (cases "swapBuffers c")
      case True
      with False have l1: "cursor_index c + 1 < ?N" by simp
      then have "swapBuffers ?c1" using True h1(5) by simp
      moreover have "(cursor_index c + 1) mod ?N = cursor_index c + 1" using l1 by simp
      ultimately show ?thesis using ih ab True by (simp add: add.assoc)
    next
      case False
      then have "\<not> swapBuffers ?c1" using h1(5) by simp
      then show ?thesis using ih ab False by simp
    qed
  qed
  from ih idx F S A show ?case by simp
qed

lemma run_frame [simp]:
  "numPlanes (run_handler a h es c) = numPlanes c"
  "numRowPairs (run_handler a h es c) = numRowPairs c"
  by (induction es arbitrary: c) (simp_all add: handler_core)

lemma cursor_decode:
  assumes "cursor_in_range c"
  shows "unat (row c) = cursor_index c div unat (numPlanes c)"
    and "unat (plane c) = cursor_index c mod unat (numPlanes c)"
  using assms by (simp_all add: cursor_in_range_def cursor_index_def word_less_nat_alt)

lemma index_zero:
  assumes "cursor_in_range c"
  shows "cursor_index c = 0 \<longleftrightarrow> row c = 0 \<and> plane c = 0"
proof -
  have "0 < unat (numPlanes c)" using assms by (simp add: cursor_in_range_def word_less_nat_alt)
  then show ?thesis by (auto simp add: cursor_index_def unat_eq_0)
qed

lemma reentries_count:
  assumes "cursor_in_range c"
  shows "reentries a h es c = (cursor_index c + length es) div cursor_period c"
  using assms
proof (induction es arbitrary: c)
  case Nil
  from advance_in_range(4) [OF Nil] show ?case by simp
next
  case (Cons e es)
  let ?c1 = "fst (PM_row_handler a h e c)"
  let ?N = "cursor_period c"
  note h1 = handler_in_range [OF Cons.prems, of a h e]
  have lt: "cursor_index c < ?N" by (rule advance_in_range(4) [OF Cons.prems])
  have z: "(row ?c1 = 0 \<and> plane ?c1 = 0) \<longleftrightarrow> cursor_index c + 1 = ?N"
    using index_zero [OF h1(1)] h1(2) lt
    by (metis Suc_eq_plus1 Suc_leI le_neq_implies_less mod_less mod_self nat.simps(3) add.commute plus_1_eq_Suc)
  have dv: "(cursor_index c + 1) div ?N = (if cursor_index c + 1 = ?N then 1 else 0)"
    using lt by auto
  have "reentries a h (e # es) c =
          (cursor_index c + 1) div ?N + ((cursor_index c + 1) mod ?N + length es) div ?N"
    using Cons.IH [OF h1(1)] h1(2) h1(3) z dv by (simp add: Let_def)
  also have "\<dots> = (cursor_index c + length (e # es)) div ?N"
    using div_carry [of "cursor_index c + 1" "length es" ?N] by (simp add: add.assoc)
  finally show ?case .
qed

lemma timer_starts_append [simp]:
  "timer_starts (xs @ ys) = timer_starts xs @ timer_starts ys"
  by (induction xs rule: timer_starts.induct) simp_all

lemma timer_starts_concat:
  assumes "\<And>x. timer_starts (f x) = []"
  shows "timer_starts (concat (map f xs)) = []"
  using assms by (induction xs) simp_all

lemma timer_starts_address_update [simp]:
  "timer_starts (snd (address_update a t p c)) = []"
  by (simp add: address_update_def addr_per_line_def PM_setReg_def PM_clearReg_def
      timer_starts_concat)

lemma timer_starts_blast [simp]: "timer_starts (blast a c) = []"
  by (simp add: blast_def blast_byte_def blast_word_def blast_long_def blast_final_clear_def
      split: option.split)

lemma handler_events:
  "timer_starts (snd (PM_row_handler a h e c)) =
     [push_bit (unat (plane c)) (bitZeroPeriod (fst (PM_row_handler a h e c)))]"
  by (simp add: PM_row_handler_def Let_def PM_setReg_def PM_clearReg_def split: prod.split)
     (metis timer_starts_address_update snd_conv)

lemma handler_bzp:
  "bitZeroPeriod (fst (PM_row_handler a h e c)) = bitZeroPeriod (update_bitZeroPeriod e (plane c) c)"
  "minPeriod (fst (PM_row_handler a h e c)) = minPeriod c"
  by (simp_all add: handler_core update_bitZeroPeriod_def address_update_def advance_cursor_def Let_def)

section \<open>Initialisation and release: auxiliary facts\<close>

text \<open>A successful \<^verbatim>\<open>_PM_begin\<close> has passed through every stage.\<close>

lemma begin_OK_E:
  assumes "PM_begin a (Some core) h = Inr (PROTOMATTER_OK, Some core', h', evs)"
  obtains bitMask core1 screenBytes rgbMaskBytes p h1 core4 masks ev1 core5 core6 core7 h3 ev2 where
    "rgbPins core \<noteq> 0"
    "begin_bitMask a core h = Some bitMask"
    "unat (parallel core) * 6 \<le> 255"
    "begin_layout a bitMask core = Inr (core1, screenBytes, rgbMaskBytes)"
    "PM_ALLOCATOR (unat (screenBytes + rgbMaskBytes)) h = (p, h1)"
    "p \<noteq> 0"
    "begin_masks a (rgbPins_table h core) bitMask screenBytes
       (core1\<lparr>screenData := p, rgbMask := p + unat screenBytes\<rparr>) = (core4, masks, ev1)"
    "begin_remap a core4 = Inr core5"
    "begin_minPeriod a core5 = Inr core6"
    "begin_pins a (rgbPins_table h core)
       (h1\<lparr>blocks := (blocks h1)(p \<mapsto> ScreenBlock (unat (screenBytes + rgbMaskBytes)) masks)\<rparr>)
       core6 = (core7, h3, ev2)"
    "core' = fst (PM_resume core7)"
    "h' = h3"
  using assms unfolding PM_begin_def
  by (auto simp: Let_def split: option.splits sum.splits prod.splits if_splits)

text \<open>What each stage leaves alone.\<close>

lemma resume_frame [simp]:
  "bytesPerElement (fst (PM_resume c)) = bytesPerElement c"
  "portOffset (fst (PM_resume c)) = portOffset c"
  "bufferSize (fst (PM_resume c)) = bufferSize c"
  "numRowPairs (fst (PM_resume c)) = numRowPairs c"
  "numPlanes (fst (PM_resume c)) = numPlanes c"
  "numAddressLines (fst (PM_resume c)) = numAddressLines c"
  "screenData (fst (PM_resume c)) = screenData c"
  "rgbMask (fst (PM_resume c)) = rgbMask c"
  "rgbPins (fst (PM_resume c)) = rgbPins c"
  "addr (fst (PM_resume c)) = addr c"
  "minPeriod (fst (PM_resume c)) = minPeriod c"
  "remap_rb (fst (PM_resume c)) = remap_rb c"
  "remap_g (fst (PM_resume c)) = remap_g c"
  "width (fst (PM_resume c)) = width c"
  "parallel (fst (PM_resume c)) = parallel c"
  "doubleBuffer (fst (PM_resume c)) = doubleBuffer c"
  by (simp_all add: PM_resume_def Let_def)

lemma pins_frame [simp]:
  "bytesPerElement (fst (begin_pins a ps h c)) = bytesPerElement c"
  "portOffset (fst (begin_pins a ps h c)) = portOffset c"
  "bufferSize (fst (begin_pins a ps h c)) = bufferSize c"
  "numRowPairs (fst (begin_pins a ps h c)) = numRowPairs c"
  "numPlanes (fst (begin_pins a ps h c)) = numPlanes c"
  "numAddressLines (fst (begin_pins a ps h c)) = numAddressLines c"
  "screenData (fst (begin_pins a ps h c)) = screenData c"
  "rgbMask (fst (begin_pins a ps h c)) = rgbMask c"
  "rgbPins (fst (begin_pins a ps h c)) = rgbPins c"
  "addr (fst (begin_pins a ps h c)) = addr c"
  "minPeriod (fst (begin_pins a ps h c)) = minPeriod c"
  "remap_rb (fst (begin_pins a ps h c)) = remap_rb c"
  "remap_g (fst (begin_pins a ps h c)) = remap_g c"
  "width (fst (begin_pins a ps h c)) = width c"
  "parallel (fst (begin_pins a ps h c)) = parallel c"
  "doubleBuffer (fst (begin_pins a ps h c)) = doubleBuffer c"
  by (simp_all add: begin_pins_def Let_def split: option.split)

lemma minPeriod_frame:
  assumes "begin_minPeriod a c = Inr c'"
  shows "bytesPerElement c' = bytesPerElement c" "portOffset c' = portOffset c"
    "bufferSize c' = bufferSize c" "numRowPairs c' = numRowPairs c" "numPlanes c' = numPlanes c"
    "numAddressLines c' = numAddressLines c"
    "screenData c' = screenData c" "rgbMask c' = rgbMask c" "rgbPins c' = rgbPins c"
    "addr c' = addr c" "remap_rb c' = remap_rb c" "remap_g c' = remap_g c"
    "width c' = width c" "parallel c' = parallel c" "doubleBuffer c' = doubleBuffer c"
  using assms by (auto simp: begin_minPeriod_def Let_def split: if_splits)

lemma remap_frame:
  assumes "begin_remap a c = Inr c'"
  shows "bytesPerElement c' = bytesPerElement c" "portOffset c' = portOffset c"
    "bufferSize c' = bufferSize c" "numRowPairs c' = numRowPairs c" "numPlanes c' = numPlanes c"
    "numAddressLines c' = numAddressLines c"
    "screenData c' = screenData c" "rgbMask c' = rgbMask c" "rgbPins c' = rgbPins c"
    "addr c' = addr c" "minPeriod c' = minPeriod c"
    "width c' = width c" "parallel c' = parallel c" "doubleBuffer c' = doubleBuffer c"
  using assms by (auto simp: begin_remap_def Let_def split: if_splits)

lemma masks_frame:
  assumes "begin_masks a ps m sb c = (c', masks, ev)"
  shows "bytesPerElement c' = bytesPerElement c"
    "bufferSize c' = bufferSize c" "numRowPairs c' = numRowPairs c" "numPlanes c' = numPlanes c"
    "numAddressLines c' = numAddressLines c"
    "screenData c' = screenData c" "rgbMask c' = rgbMask c" "rgbPins c' = rgbPins c"
    "addr c' = addr c" "width c' = width c" "parallel c' = parallel c"
    "doubleBuffer c' = doubleBuffer c"
    "bytesPerElement c \<noteq> 1 \<and> bytesPerElement c \<noteq> 2 \<longrightarrow> portOffset c' = 0"
  using assms by (auto simp: begin_masks_def Let_def split: if_splits prod.splits)

lemma layout_frame:
  assumes "begin_layout a m c = Inr (c', sb, mb)"
  shows "bytesPerElement c' = bytesPerElement_of (byteMask_of m)"
    "numRowPairs c' = of_nat (2 ^ unat (numAddressLines c))"
    "unat (numAddressLines c) < 31"
    "numPlanes c' = numPlanes c" "numAddressLines c' = numAddressLines c"
    "screenData c' = screenData c" "rgbPins c' = rgbPins c"
    "addr c' = addr c" "width c' = width c" "parallel c' = parallel c"
    "doubleBuffer c' = doubleBuffer c"
    "bufferSize c' = of_nat (unat (columns_u16 a c) * unat (numRowPairs c') * unat (numPlanes c) *
                       unat (bytesPerElement c'))"
    "unat (columns_u16 a c) * unat (numRowPairs c') * unat (numPlanes c) * unat (bytesPerElement c') < 2 ^ 31"
    "sb = (if doubleBuffer c then bufferSize c' * 2 else bufferSize c')"
    "mb = of_nat (unat (parallel c) * 6 * unat (bytesPerElement c'))"
    "oe c' = oe c" "latch c' = latch c" "swapBuffers c' = swapBuffers c"
  using assms by (auto simp: begin_layout_def Let_def columns_u16_def chunks_u8_def split: if_splits)

text \<open>The planner against the classification of the specification.\<close>

lemma and_or_zero:
  fixes m x y :: u32
  shows "m AND (x OR y) = 0 \<longleftrightarrow> m AND x = 0 \<and> m AND y = 0"
  by (simp add: bit.conj_disj_distrib or_eq_0_iff)

lemma octets_of_mask:
  fixes m :: u32
  shows "m = 0 \<longleftrightarrow> m AND 0xFF000000 = 0 \<and> m AND 0x00FF0000 = 0 \<and> m AND 0x0000FF00 = 0 \<and> m AND 0x000000FF = 0"
proof -
  have e: "(0xFF000000 OR 0x00FF0000 OR 0x0000FF00 OR 0x000000FF :: u32) = - 1"
    by simp
  have "m = m AND (0xFF000000 OR 0x00FF0000 OR 0x0000FF00 OR 0x000000FF)"
    unfolding e by simp
  then have "m = 0 \<longleftrightarrow> m AND (0xFF000000 OR 0x00FF0000 OR 0x0000FF00 OR 0x000000FF) = 0"
    by simp
  then show ?thesis by (simp only: and_or_zero) 
qed

lemma within_octets:
  fixes m :: u32
  shows "within_region 0x000000FF m \<longleftrightarrow> m AND 0xFF000000 = 0 \<and> m AND 0x00FF0000 = 0 \<and> m AND 0x0000FF00 = 0"
    and "within_region 0x0000FF00 m \<longleftrightarrow> m AND 0xFF000000 = 0 \<and> m AND 0x00FF0000 = 0 \<and> m AND 0x000000FF = 0"
    and "within_region 0x00FF0000 m \<longleftrightarrow> m AND 0xFF000000 = 0 \<and> m AND 0x0000FF00 = 0 \<and> m AND 0x000000FF = 0"
    and "within_region 0xFF000000 m \<longleftrightarrow> m AND 0x00FF0000 = 0 \<and> m AND 0x0000FF00 = 0 \<and> m AND 0x000000FF = 0"
    and "within_region 0x0000FFFF m \<longleftrightarrow> m AND 0xFF000000 = 0 \<and> m AND 0x00FF0000 = 0"
    and "within_region 0xFFFF0000 m \<longleftrightarrow> m AND 0x0000FF00 = 0 \<and> m AND 0x000000FF = 0"
    and "within_region 0x00FFFF00 m \<longleftrightarrow> m AND 0xFF000000 = 0 \<and> m AND 0x000000FF = 0"
proof -
  have n: "NOT (0x000000FF :: u32) = 0xFF000000 OR 0x00FF0000 OR 0x0000FF00"
          "NOT (0x0000FF00 :: u32) = 0xFF000000 OR 0x00FF0000 OR 0x000000FF"
          "NOT (0x00FF0000 :: u32) = 0xFF000000 OR 0x0000FF00 OR 0x000000FF"
          "NOT (0xFF000000 :: u32) = 0x00FF0000 OR 0x0000FF00 OR 0x000000FF"
          "NOT (0x0000FFFF :: u32) = 0xFF000000 OR 0x00FF0000"
          "NOT (0xFFFF0000 :: u32) = 0x0000FF00 OR 0x000000FF"
          "NOT (0x00FFFF00 :: u32) = 0xFF000000 OR 0x000000FF"
    by simp_all
  show "within_region 0x000000FF m \<longleftrightarrow> m AND 0xFF000000 = 0 \<and> m AND 0x00FF0000 = 0 \<and> m AND 0x0000FF00 = 0"
    unfolding within_region_def n by (simp only: and_or_zero conj_assoc)
  show "within_region 0x0000FF00 m \<longleftrightarrow> m AND 0xFF000000 = 0 \<and> m AND 0x00FF0000 = 0 \<and> m AND 0x000000FF = 0"
    unfolding within_region_def n by (simp only: and_or_zero conj_assoc)
  show "within_region 0x00FF0000 m \<longleftrightarrow> m AND 0xFF000000 = 0 \<and> m AND 0x0000FF00 = 0 \<and> m AND 0x000000FF = 0"
    unfolding within_region_def n by (simp only: and_or_zero conj_assoc)
  show "within_region 0xFF000000 m \<longleftrightarrow> m AND 0x00FF0000 = 0 \<and> m AND 0x0000FF00 = 0 \<and> m AND 0x000000FF = 0"
    unfolding within_region_def n by (simp only: and_or_zero conj_assoc)
  show "within_region 0x0000FFFF m \<longleftrightarrow> m AND 0xFF000000 = 0 \<and> m AND 0x00FF0000 = 0"
    unfolding within_region_def n by (simp only: and_or_zero)
  show "within_region 0xFFFF0000 m \<longleftrightarrow> m AND 0x0000FF00 = 0 \<and> m AND 0x000000FF = 0"
    unfolding within_region_def n by (simp only: and_or_zero)
  show "within_region 0x00FFFF00 m \<longleftrightarrow> m AND 0xFF000000 = 0 \<and> m AND 0x000000FF = 0"
    unfolding within_region_def n by (simp only: and_or_zero)
qed

lemma planner_width:
  "bytesPerElement_of (byteMask_of m) = spec_element_width m"
proof -
  have z: "m = 0 \<longleftrightarrow> m AND 0xFF000000 = 0 \<and> m AND 0x00FF0000 = 0 \<and> m AND 0x0000FF00 = 0 \<and> m AND 0x000000FF = 0"
    by (rule octets_of_mask)
  show ?thesis
    unfolding spec_element_width_def spec_one_octet_def spec_half_word_def within_octets z
    by (cases "m AND 0xFF000000 = 0"; cases "m AND 0x00FF0000 = 0";
        cases "m AND 0x0000FF00 = 0"; cases "m AND 0x000000FF = 0")
       (simp_all add: byteMask_of_def bytesPerElement_of_def Let_def)
qed

lemma pins_bitMask_union:
  "pins_bitMask a port ps m0 = Some m \<Longrightarrow> m = foldl (OR) m0 (map (portBitMask a) ps)"
  by (induction ps arbitrary: m0) (auto split: if_splits)

lemma begin_bitMask_union:
  assumes "begin_bitMask a core h = Some m" "unat (parallel core) * 6 \<le> 255"
  shows "m = foldl (OR) (initial_bitMask a core)
               (map (\<lambda>i. portBitMask a (rgb_pin (rgbPins_table h core) i)) [0 ..< unat (parallel core) * 6])"
proof -
  have "min (unat (parallel core) * 6) 256 = unat (parallel core) * 6" using assms(2) by simp
  then show ?thesis
    using pins_bitMask_union [OF assms(1) [unfolded begin_bitMask_def]] by (simp add: comp_def)
qed

lemma begin_width:
  assumes "PM_begin a (Some core) h = Inr (PROTOMATTER_OK, Some core', h', evs)"
  shows "\<exists>bitMask.
           begin_bitMask a core h = Some bitMask \<and>
           bitMask = foldl (OR) (initial_bitMask a core)
                       (map (\<lambda>i. portBitMask a (rgb_pin (rgbPins_table h core) i))
                          [0 ..< unat (parallel core) * 6]) \<and>
           bytesPerElement core' = bytesPerElement_of (byteMask_of bitMask) \<and>
           (bytesPerElement core' = 4 \<longrightarrow> portOffset core' = 0)"
proof -
  from assms obtain bitMask core1 screenBytes rgbMaskBytes p h1 core4 masks ev1 core5 core6 core7 h3 ev2
    where s: "begin_bitMask a core h = Some bitMask"
      "unat (parallel core) * 6 \<le> 255"
      "begin_layout a bitMask core = Inr (core1, screenBytes, rgbMaskBytes)"
      "begin_masks a (rgbPins_table h core) bitMask screenBytes
         (core1\<lparr>screenData := p, rgbMask := p + unat screenBytes\<rparr>) = (core4, masks, ev1)"
      "begin_remap a core4 = Inr core5"
      "begin_minPeriod a core5 = Inr core6"
      "begin_pins a (rgbPins_table h core)
         (h1\<lparr>blocks := (blocks h1)(p \<mapsto> ScreenBlock (unat (screenBytes + rgbMaskBytes)) masks)\<rparr>)
         core6 = (core7, h3, ev2)"
      "core' = fst (PM_resume core7)"
    by (rule begin_OK_E)
  have c7: "core7 = fst (begin_pins a (rgbPins_table h core)
         (h1\<lparr>blocks := (blocks h1)(p \<mapsto> ScreenBlock (unat (screenBytes + rgbMaskBytes)) masks)\<rparr>)
         core6)"
    using s(7) by simp
  have bpe1: "bytesPerElement core1 = bytesPerElement_of (byteMask_of bitMask)"
    by (rule layout_frame(1) [OF s(3)])
  have bpe4: "bytesPerElement core4 = bytesPerElement core1"
    using masks_frame(1) [OF s(4)] by simp
  have bpe: "bytesPerElement core' = bytesPerElement_of (byteMask_of bitMask)"
    unfolding s(8) c7
    by (simp add: minPeriod_frame(1) [OF s(6)] remap_frame(1) [OF s(5)] bpe4 bpe1)
  have po': "portOffset core' = portOffset core4"
    unfolding s(8) c7
    by (simp add: minPeriod_frame(2) [OF s(6)] remap_frame(2) [OF s(5)])
  have po4: "bytesPerElement core' = 4 \<longrightarrow> portOffset core' = 0"
  proof
    assume "bytesPerElement core' = 4"
    then have "bytesPerElement core1 = 4" using bpe bpe1 by simp
    then have "portOffset core4 = 0" using masks_frame(13) [OF s(4)] by simp
    then show "portOffset core' = 0" using po' by simp
  qed
  from s(1) begin_bitMask_union [OF s(1) s(2)] bpe po4 show ?thesis by blast
qed

text \<open>The sizes that \<^verbatim>\<open>_PM_begin\<close> computes.\<close>

lemma begin_sizes:
  assumes "PM_begin a (Some core) h = Inr (PROTOMATTER_OK, Some core', h', evs)"
  shows "bufferSize core' =
           of_nat (unat (columns_u16 a core) * unat (numRowPairs core') * unat (numPlanes core) *
                   unat (bytesPerElement core'))"
    and "numRowPairs core' = of_nat (2 ^ unat (numAddressLines core))"
    and "width core' = width core" and "numPlanes core' = numPlanes core"
    and "parallel core' = parallel core" and "doubleBuffer core' = doubleBuffer core"
    and "\<exists>p h1. PM_ALLOCATOR
           (unat ((if doubleBuffer core then bufferSize core' * 2 else bufferSize core') +
                  of_nat (unat (parallel core) * 6 * unat (bytesPerElement core')))) h = (p, h1) \<and>
           screenData core' = p \<and>
           rgbMask core' = p + unat (if doubleBuffer core then bufferSize core' * 2 else bufferSize core')"
proof -
  from assms obtain bitMask core1 screenBytes rgbMaskBytes p h1 core4 masks ev1 core5 core6 core7 h3 ev2
    where s: "begin_layout a bitMask core = Inr (core1, screenBytes, rgbMaskBytes)"
      "PM_ALLOCATOR (unat (screenBytes + rgbMaskBytes)) h = (p, h1)"
      "begin_masks a (rgbPins_table h core) bitMask screenBytes
         (core1\<lparr>screenData := p, rgbMask := p + unat screenBytes\<rparr>) = (core4, masks, ev1)"
      "begin_remap a core4 = Inr core5"
      "begin_minPeriod a core5 = Inr core6"
      "begin_pins a (rgbPins_table h core)
         (h1\<lparr>blocks := (blocks h1)(p \<mapsto> ScreenBlock (unat (screenBytes + rgbMaskBytes)) masks)\<rparr>)
         core6 = (core7, h3, ev2)"
      "core' = fst (PM_resume core7)"
    by (rule begin_OK_E)
  have c7: "core7 = fst (begin_pins a (rgbPins_table h core)
         (h1\<lparr>blocks := (blocks h1)(p \<mapsto> ScreenBlock (unat (screenBytes + rgbMaskBytes)) masks)\<rparr>)
         core6)"
    using s(6) by simp
  note L = layout_frame [OF s(1)]
  note M = masks_frame [OF s(3)]
  note R = remap_frame [OF s(4)]
  note P = minPeriod_frame [OF s(5)]
  have e: "bytesPerElement core' = bytesPerElement core1" "bufferSize core' = bufferSize core1"
    "numRowPairs core' = numRowPairs core1" "numPlanes core' = numPlanes core"
    "width core' = width core" "parallel core' = parallel core"
    "doubleBuffer core' = doubleBuffer core" "screenData core' = p"
    "rgbMask core' = p + unat screenBytes"
    unfolding s(7) c7 using L M R P by simp_all
  show "bufferSize core' =
           of_nat (unat (columns_u16 a core) * unat (numRowPairs core') * unat (numPlanes core) *
                   unat (bytesPerElement core'))"
    unfolding e using L(12) by simp
  show "numRowPairs core' = of_nat (2 ^ unat (numAddressLines core))"
    unfolding e using L(2) by simp
  show "width core' = width core" "numPlanes core' = numPlanes core"
    "parallel core' = parallel core" "doubleBuffer core' = doubleBuffer core"
    using e by simp_all
  have sb: "screenBytes = (if doubleBuffer core then bufferSize core' * 2 else bufferSize core')"
    unfolding e using L(14) by simp
  have mb: "rgbMaskBytes = of_nat (unat (parallel core) * 6 * unat (bytesPerElement core'))"
    unfolding e using L(15) by simp
  show "\<exists>p h1. PM_ALLOCATOR
           (unat ((if doubleBuffer core then bufferSize core' * 2 else bufferSize core') +
                  of_nat (unat (parallel core) * 6 * unat (bytesPerElement core')))) h = (p, h1) \<and>
           screenData core' = p \<and>
           rgbMask core' = p + unat (if doubleBuffer core then bufferSize core' * 2 else bufferSize core')"
    using s(2) e(8,9) unfolding sb mb by blast
qed

text \<open>
  Where the count of chunks fits eight bits, the padded width is the one that line 596
  computes for the interrupt handler.
\<close>

lemma columns_in_range:
  assumes "chunkSize_ok a" "(unat (width core) + (chunkSize a - 1)) div chunkSize a \<le> 255"
  shows "unat (columns_u16 a core) = (unat (width core) + (chunkSize a - 1)) div chunkSize a * chunkSize a"
    and "ucast (columns_u16 a core) = elementsPerLine a core"
proof -
  let ?q = "(unat (width core) + (chunkSize a - 1)) div chunkSize a"
  have cs: "chunkSize a \<le> 64" using assms(1) by (auto simp: chunkSize_ok_def)
  have "unat (chunks_u8 a core) = ?q mod 2 ^ LENGTH(8)"
    unfolding chunks_u8_def by (rule unat_of_nat)
  then have ch: "unat (chunks_u8 a core) = ?q" using assms(2) by simp
  have "?q * chunkSize a \<le> 255 * 64" using assms(2) cs by (rule mult_le_mono)
  then have b: "?q * chunkSize a < 2 ^ 16" by simp
  have "unat (columns_u16 a core) = (unat (chunks_u8 a core) * chunkSize a) mod 2 ^ LENGTH(16)"
    unfolding columns_u16_def by (rule unat_of_nat)
  then show v: "unat (columns_u16 a core) = ?q * chunkSize a" using b ch by simp
  have "ucast (columns_u16 a core) = (of_nat (unat (columns_u16 a core)) :: u32)" by simp
  also have "\<dots> = of_nat (chunkSize a * ?q)" unfolding v by (simp only: mult.commute)
  finally show "ucast (columns_u16 a core) = elementsPerLine a core"
    unfolding elementsPerLine_def .
qed

text \<open>The period floor.\<close>

lemma minPeriod_stage:
  assumes "begin_minPeriod a c = Inr c'"
  shows "numRowPairs c \<noteq> 0" "numPlanes c \<noteq> 0" "unat (numPlanes c) < 31"
    "minPeriod c' = max (minMinPeriod a)
        (((timerFreq a div 250) div ucast (numRowPairs c)) div of_nat (2 ^ unat (numPlanes c) - 1))"
  using assms
  by (auto simp: begin_minPeriod_def MAX_REFRESH_HZ_def Let_def max_def not_less split: if_splits)

lemma unat_max:
  fixes x y :: u32
  shows "unat (max x y) = max (unat x) (unat y)"
  by (simp add: max_def word_le_nat_alt)

lemma unat_mask_nat:
  assumes "n < 31"
  shows "unat (of_nat (2 ^ n - 1) :: u32) = 2 ^ n - 1"
    and "unat (2 ^ n - 1 :: u32) = 2 ^ n - 1"
proof -
  have "(2::nat) ^ n \<le> 2 ^ 31" using assms by (intro power_increasing) simp_all
  then have b: "(2::nat) ^ n - 1 < 2 ^ 32" by simp
  have "unat (of_nat (2 ^ n - 1) :: u32) = (2 ^ n - 1) mod 2 ^ LENGTH(32)"
    by (rule unat_of_nat)
  also have "\<dots> = 2 ^ n - 1" using b by simp
  finally show "unat (of_nat (2 ^ n - 1) :: u32) = 2 ^ n - 1" .
  moreover have "(of_nat (2 ^ n - 1) :: u32) = 2 ^ n - 1" by simp
  ultimately show "unat (2 ^ n - 1 :: u32) = 2 ^ n - 1" by simp
qed

lemma unat_ucast_u8:
  fixes r :: u8
  shows "unat (ucast r :: u32) = unat r"
proof -
  have "unat r < 2 ^ 32" using unsigned_less [of r, where 'a = nat] by simp
  then show ?thesis by (simp add: unsigned_ucast_eq take_bit_nat_eq_self)
qed

text \<open>The remap tables.\<close>

lemma u8_in_1_12:
  fixes x :: u8
  assumes "1 \<le> x" "x \<le> 12"
  shows "x = 1 \<or> x = 2 \<or> x = 3 \<or> x = 4 \<or> x = 5 \<or> x = 6 \<or>
         x = 7 \<or> x = 8 \<or> x = 9 \<or> x = 10 \<or> x = 11 \<or> x = 12"
proof -
  have "1 \<le> unat x" "unat x \<le> 12" using assms by (simp_all add: word_le_nat_alt)
  then have "unat x = 1 \<or> unat x = 2 \<or> unat x = 3 \<or> unat x = 4 \<or> unat x = 5 \<or> unat x = 6 \<or>
         unat x = 7 \<or> unat x = 8 \<or> unat x = 9 \<or> unat x = 10 \<or> unat x = 11 \<or> unat x = 12"
    by arith
  then show ?thesis
    by (elim disjE) (auto dest!: arg_cong [where f = "of_nat :: nat \<Rightarrow> u8"])
qed

lemma remap_low:
  assumes "begin_remap a c = Inr c'" "numPlanes c < 6"
  shows "remap_rb c' = map (\<lambda>i. ucast (drop_bit (unat (5 - numPlanes c)) (of_nat i :: u8))) [0 ..< 32]"
    and "remap_g c' = map (\<lambda>i. ucast (drop_bit (unat (6 - numPlanes c)) (of_nat i :: u8))) [0 ..< 64]"
  using assms by (auto simp: begin_remap_def Let_def)

lemma remap_six:
  assumes "begin_remap a c = Inr c'" "numPlanes c = 6"
  shows "remap_rb c' = map (\<lambda>i. of_nat (push_bit 1 i OR drop_bit 4 i)) [0 ..< 32]"
    and "remap_g c' = map of_nat [0 ..< 64]"
  using assms by (auto simp: begin_remap_def Let_def)

lemma remap_gamma:
  assumes "begin_remap a c = Inr c'" "6 < numPlanes c"
  shows "remap_rb c' = map cast_u16 (map (gamma_value a (real (2 ^ unat (numPlanes c) - 1)) 31) [0 ..< 32])"
    and "remap_g c' = map cast_u16 (map (gamma_value a (real (2 ^ unat (numPlanes c) - 1)) 63) [0 ..< 64])"
    and "unat (numPlanes c) < 31"
  using assms by (auto simp: begin_remap_def Let_def not_less split: if_splits)

lemma gamma_ends:
  assumes "pow a 0 GAMMA = 0" "pow a 1 GAMMA = 1" "0 < d"
  shows "cast_u16 (gamma_value a (real n) d 0) = 0"
    and "cast_u16 (gamma_value a (real n) d d) = of_nat n"
proof -
  show "cast_u16 (gamma_value a (real n) d 0) = 0"
    using assms by (simp add: cast_u16_def gamma_value_def)
  have "gamma_value a (real n) d d = real n + 1 / 2"
    using assms by (simp add: gamma_value_def)
  moreover have "\<lfloor>real n + 1 / 2\<rfloor> = int n" by linarith
  ultimately show "cast_u16 (gamma_value a (real n) d d) = of_nat n"
    by (simp add: cast_u16_def)
qed

lemma remap_stage_ends:
  assumes r: "begin_remap a c = Inr c'"
    and lo: "1 \<le> numPlanes c" and hi: "numPlanes c \<le> 12"
    and p0: "pow a 0 GAMMA = 0" and p1: "pow a 1 GAMMA = 1"
  shows "length (remap_rb c') = 32 \<and> remap_rb c' ! 0 = 0 \<and>
         remap_rb c' ! 31 = 2 ^ unat (numPlanes c) - 1 \<and>
         length (remap_g c') = 64 \<and> remap_g c' ! 0 = 0 \<and>
         remap_g c' ! 63 = 2 ^ unat (numPlanes c) - 1"
proof -
  consider (low) "numPlanes c < 6" | (six) "numPlanes c = 6" | (gam) "6 < numPlanes c"
    by fastforce
  then show ?thesis
  proof cases
    case low
    with lo have "numPlanes c = 1 \<or> numPlanes c = 2 \<or> numPlanes c = 3 \<or> numPlanes c = 4 \<or> numPlanes c = 5"
      using u8_in_1_12 [OF lo hi] by auto
    then show ?thesis
      unfolding remap_low [OF r low] by (elim disjE) (simp_all add: nth_map_upt)
  next
    case six
    show ?thesis unfolding remap_six [OF r six] by (simp add: six nth_map_upt)
  next
    case gam
    have e: "remap_rb c' ! 0 = 0" "remap_rb c' ! 31 = of_nat (2 ^ unat (numPlanes c) - 1)"
            "remap_g c' ! 0 = 0" "remap_g c' ! 63 = of_nat (2 ^ unat (numPlanes c) - 1)"
      unfolding remap_gamma(1,2) [OF r gam]
      using gamma_ends [OF p0 p1, of 31 "2 ^ unat (numPlanes c) - 1"]
            gamma_ends [OF p0 p1, of 63 "2 ^ unat (numPlanes c) - 1"]
      by (simp_all add: nth_map_upt)
    have l: "length (remap_rb c') = 32" "length (remap_g c') = 64"
      unfolding remap_gamma(1,2) [OF r gam] by simp_all
    from e l show ?thesis by simp
  qed
qed

text \<open>
  For the inputs that \<^verbatim>\<open>_PM_init\<close> lets through and a bit depth from 1 to 16,
  \<^verbatim>\<open>_PM_begin\<close> returns a status: none of the undefined operations is reached.
\<close>

lemma bytesPerElement_of_le: "unat (bytesPerElement_of b) \<le> 4"
  by (simp add: bytesPerElement_of_def)

lemma columns_le:
  assumes "chunkSize_ok a"
  shows "unat (columns_u16 a c) \<le> 16320"
proof -
  have cs: "chunkSize a \<le> 64" using assms by (auto simp: chunkSize_ok_def)
  have ch: "unat (chunks_u8 a c) \<le> 255"
    using unsigned_less [of "chunks_u8 a c", where 'a = nat] by simp
  have "unat (columns_u16 a c) = (unat (chunks_u8 a c) * chunkSize a) mod 2 ^ LENGTH(16)"
    unfolding columns_u16_def by (rule unat_of_nat)
  also have "\<dots> \<le> unat (chunks_u8 a c) * chunkSize a" by simp
  also have "\<dots> \<le> 255 * 64" using ch cs by (rule mult_le_mono)
  finally show ?thesis by simp
qed

lemma rowPairs_val:
  assumes "n \<le> 5"
  shows "unat (of_nat (2 ^ n) :: u8) = 2 ^ n" "unat (of_nat (2 ^ n) :: u8) \<le> 32"
    "(of_nat (2 ^ n) :: u8) \<noteq> 0"
proof -
  have "(2::nat) ^ n \<le> 2 ^ 5" using assms by (intro power_increasing) simp_all
  then have b: "(2::nat) ^ n \<le> 32" by simp
  have "unat (of_nat (2 ^ n) :: u8) = 2 ^ n mod 2 ^ LENGTH(8)" by (rule unat_of_nat)
  also have "\<dots> = 2 ^ n" using b by simp
  finally show v: "unat (of_nat (2 ^ n) :: u8) = 2 ^ n" .
  then show "unat (of_nat (2 ^ n) :: u8) \<le> 32" using b by simp
  have "unat (of_nat (2 ^ n) :: u8) \<noteq> 0" using v by simp
  then show "(of_nat (2 ^ n) :: u8) \<noteq> 0" by (simp add: unat_eq_0 del: of_nat_power)
qed

lemma layout_total:
  assumes "unat (numAddressLines c) \<le> 5" "chunkSize_ok a"
  shows "\<exists>c1 sb mb. begin_layout a m c = Inr (c1, sb, mb)"
proof -
  let ?c1 = "c\<lparr>bytesPerElement := bytesPerElement_of (byteMask_of m)\<rparr>"
  let ?c2 = "?c1\<lparr>numRowPairs := of_nat (2 ^ unat (numAddressLines ?c1))\<rparr>"
  have a1: "unat (columns_u16 a ?c2) \<le> 16320" by (rule columns_le [OF assms(2)])
  have a2: "unat (numRowPairs ?c2) \<le> 32" using rowPairs_val(2) [OF assms(1)] by simp
  have a3: "unat (numPlanes ?c2) \<le> 255"
    using unsigned_less [of "numPlanes c", where 'a = nat] by simp
  have a4: "unat (bytesPerElement ?c2) \<le> 4" using bytesPerElement_of_le by simp
  have "unat (columns_u16 a ?c2) * unat (numRowPairs ?c2) * unat (numPlanes ?c2) *
          unat (bytesPerElement ?c2) \<le> 16320 * 32 * 255 * 4"
    by (intro mult_le_mono a1 a2 a3 a4)
  then have lt: "unat (columns_u16 a ?c2) * unat (numRowPairs ?c2) * unat (numPlanes ?c2) *
          unat (bytesPerElement ?c2) < 2 ^ 31" by simp
  have n31: "\<not> 31 \<le> unat (numAddressLines ?c1)" using assms(1) by simp
  show ?thesis
    unfolding begin_layout_def Let_def using lt n31 by (simp add: not_le)
qed

lemma gamma_in_range:
  assumes "pow_unit_range a" "n \<le> 65535" "i \<le> d" "0 < d"
  shows "cast_u16_ok (gamma_value a (real n) d i)"
proof -
  have "0 \<le> real i / real d" "real i / real d \<le> 1" using assms(3,4) by simp_all
  then have p: "0 \<le> pow a (real i / real d) GAMMA" "pow a (real i / real d) GAMMA \<le> 1"
    using assms(1) by (simp_all add: pow_unit_range_def)
  have "pow a (real i / real d) GAMMA * real n \<le> 1 * real n"
    using p(2) by (intro mult_right_mono) simp_all
  moreover have "real n \<le> 65535" using assms(2) by simp
  moreover have "0 \<le> pow a (real i / real d) GAMMA * real n" using p(1) by simp
  ultimately show ?thesis by (simp add: cast_u16_ok_def gamma_value_def)
qed

lemma remap_total:
  assumes "numPlanes c \<le> 16" "numPlanes c \<le> 6 \<or> pow_unit_range a"
  shows "\<exists>c'. begin_remap a c = Inr c'"
proof (cases "numPlanes c \<le> 6")
  case True
  then show ?thesis by (auto simp: begin_remap_def Let_def)
next
  case False
  then have pr: "pow_unit_range a" using assms(2) by simp
  have n: "unat (numPlanes c) \<le> 16" using assms(1) by (simp add: word_le_nat_alt)
  then have "(2::nat) ^ unat (numPlanes c) \<le> 2 ^ 16" by (intro power_increasing) simp_all
  then have t: "(2::nat) ^ unat (numPlanes c) - 1 \<le> 65535" by simp
  have rb: "list_all cast_u16_ok (map (gamma_value a (real (2 ^ unat (numPlanes c) - 1)) 31) [0 ..< 32])"
    unfolding list_all_iff using gamma_in_range [OF pr t, of _ 31] by auto
  have g: "list_all cast_u16_ok (map (gamma_value a (real (2 ^ unat (numPlanes c) - 1)) 63) [0 ..< 64])"
    unfolding list_all_iff using gamma_in_range [OF pr t, of _ 63] by auto
  have "\<not> 31 \<le> unat (numPlanes c)" using n by simp
  then show ?thesis using False rb g
    by (simp add: begin_remap_def Let_def not_le)
qed

lemma minPeriod_total:
  assumes "numRowPairs c \<noteq> 0" "1 \<le> numPlanes c" "numPlanes c \<le> 16"
  shows "\<exists>c'. begin_minPeriod a c = Inr c'"
proof -
  have "unat (numPlanes c) \<le> 16" using assms(3) by (simp add: word_le_nat_alt)
  then have "\<not> 31 \<le> unat (numPlanes c)" by simp
  moreover have "numPlanes c \<noteq> 0" using assms(2) by auto
  ultimately show ?thesis using assms(1) by (simp add: begin_minPeriod_def Let_def)
qed

lemma begin_returns:
  assumes pre: "rgbPins core \<noteq> 0" "unat (parallel core) \<le> 5" "unat (numAddressLines core) \<le> 5"
    "chunkSize_ok a" "1 \<le> numPlanes core" "numPlanes core \<le> 16"
    "numPlanes core \<le> 6 \<or> pow_unit_range a"
  obtains (pins) "begin_bitMask a core h = None"
      "PM_begin a (Some core) h = Inr (PROTOMATTER_ERR_PINS, Some core, h, [])"
    | (malloc) m core1 sb mb h1 where
      "begin_bitMask a core h = Some m"
      "begin_layout a m core = Inr (core1, sb, mb)"
      "PM_ALLOCATOR (unat (sb + mb)) h = (0, h1)"
      "PM_begin a (Some core) h = Inr (PROTOMATTER_ERR_MALLOC, Some (core1\<lparr>screenData := 0\<rparr>), h1, [])"
    | (ok) m core1 sb mb p h1 core' h' evs where
      "begin_bitMask a core h = Some m"
      "begin_layout a m core = Inr (core1, sb, mb)"
      "PM_ALLOCATOR (unat (sb + mb)) h = (p, h1)" "p \<noteq> 0"
      "PM_begin a (Some core) h = Inr (PROTOMATTER_OK, Some core', h', evs)"
proof (cases "begin_bitMask a core h")
  case None
  then have "PM_begin a (Some core) h = Inr (PROTOMATTER_ERR_PINS, Some core, h, [])"
    using pre(1) by (simp add: PM_begin_def Let_def)
  with None show ?thesis by (rule pins)
next
  case (Some m)
  have n: "\<not> 255 < unat (parallel core) * 6" using pre(2) by simp
  from layout_total [OF pre(3,4)] obtain core1 sb mb
    where l: "begin_layout a m core = Inr (core1, sb, mb)" by blast
  obtain p h1 where al: "PM_ALLOCATOR (unat (sb + mb)) h = (p, h1)" by (cases "PM_ALLOCATOR (unat (sb + mb)) h")
  show ?thesis
  proof (cases "p = 0")
    case True
    have "PM_begin a (Some core) h = Inr (PROTOMATTER_ERR_MALLOC, Some (core1\<lparr>screenData := 0\<rparr>), h1, [])"
      using pre(1) Some n l al True by (simp add: PM_begin_def Let_def)
    with Some l al True show ?thesis by (auto intro: malloc)
  next
    case False
    obtain core4 masks ev1 where
      mk: "begin_masks a (rgbPins_table h core) m sb (core1\<lparr>screenData := p, rgbMask := p + unat sb\<rparr>) =
            (core4, masks, ev1)"
      by (cases "begin_masks a (rgbPins_table h core) m sb (core1\<lparr>screenData := p, rgbMask := p + unat sb\<rparr>)")
    have np4: "numPlanes core4 = numPlanes core"
      using masks_frame(4) [OF mk] layout_frame(4) [OF l] by simp
    from remap_total [of core4 a] pre(6,7) np4 obtain core5
      where rm: "begin_remap a core4 = Inr core5" by auto
    have np5: "numPlanes core5 = numPlanes core" using remap_frame(5) [OF rm] np4 by simp
    have rp5: "numRowPairs core5 \<noteq> 0"
      using remap_frame(4) [OF rm] masks_frame(3) [OF mk] layout_frame(2) [OF l]
        rowPairs_val(3) [OF pre(3)] by simp
    from minPeriod_total [OF rp5, of a] pre(5,6) np5 obtain core6
      where mp: "begin_minPeriod a core5 = Inr core6" by auto
    have "\<exists>core' h' evs. PM_begin a (Some core) h = Inr (PROTOMATTER_OK, Some core', h', evs)"
      using pre(1) Some n l al False mk rm mp
      by (simp add: PM_begin_def Let_def split: prod.splits)
    with Some l al False show ?thesis by (auto intro: ok)
  qed
qed





text \<open>\<^verbatim>\<open>_PM_stop\<close> and \<^verbatim>\<open>_PM_free\<close>.\<close>

lemma handler_pointers [simp]:
  "screenData (fst (PM_row_handler a h e c)) = screenData c"
  "addr (fst (PM_row_handler a h e c)) = addr c"
  "rgbPins (fst (PM_row_handler a h e c)) = rgbPins c"
  "parallel (fst (PM_row_handler a h e c)) = parallel c"
  "oe (fst (PM_row_handler a h e c)) = oe c"
  "latch (fst (PM_row_handler a h e c)) = latch c"
  by (simp_all add: handler_core advance_cursor_def address_update_def update_bitZeroPeriod_def Let_def)

lemma stop_wait_pointers:
  assumes "stop_wait a h es c = Some (c', evs)"
  shows "screenData c' = screenData c \<and> addr c' = addr c \<and> rgbPins c' = rgbPins c \<and>
         parallel c' = parallel c \<and> oe c' = oe c \<and> latch c' = latch c \<and> \<not> swapBuffers c'"
  using assms
proof (induction es arbitrary: c evs)
  case Nil
  then show ?case by (simp split: if_splits)
next
  case (Cons e es)
  show ?case
  proof (cases "swapBuffers c")
    case False
    with Cons.prems show ?thesis by simp
  next
    case True
    with Cons.prems obtain evs' where
      "stop_wait a h es (fst (PM_row_handler a h e c)) = Some (c', evs')"
      by (auto split: option.splits)
    from Cons.IH [OF this] show ?thesis by simp
  qed
qed

lemma stop_wait_quiet:
  assumes "\<not> swapBuffers c"
  shows "stop_wait a h es c = Some (c, [])"
  using assms by (cases es) simp_all

lemma stop_E:
  assumes "PM_stop a (Some c) es h = Inr (co, evs)"
  obtains w evw where
    "stop_wait a h es c = Some (w, evw)"
    "pin_setReg (oe w) \<noteq> 0" "pin_setReg (latch w) \<noteq> 0" "pin_clearReg (latch w) \<noteq> 0"
    "unat (parallel w) * 6 \<le> 255"
    "unat (parallel w) = 0 \<or> rgbPins w \<noteq> 0 \<and> unat (parallel w) * 6 \<le> length (rgbPins_table h w)"
    "co = Some w"
proof (cases "stop_wait a h es c")
  case None
  with assms show ?thesis by (simp add: PM_stop_def)
next
  case (Some r)
  obtain w evw where r: "r = (w, evw)" by (cases r)
  from assms Some r have
    "pin_setReg (oe w) \<noteq> 0 \<and> pin_setReg (latch w) \<noteq> 0 \<and> pin_clearReg (latch w) \<noteq> 0 \<and>
     unat (parallel w) * 6 \<le> 255 \<and>
     (unat (parallel w) = 0 \<or> rgbPins w \<noteq> 0 \<and> unat (parallel w) * 6 \<le> length (rgbPins_table h w)) \<and>
     co = Some w"
    by (auto simp add: PM_stop_def Let_def not_less split: if_splits)
  with Some r that show ?thesis by blast
qed

lemma free_E:
  assumes "PM_free a (Some c) es h = Inr (co, h', evs)"
  obtains w evw where
    "stop_wait a h es c = Some (w, evw)"
    "pin_setReg (oe w) \<noteq> 0" "pin_setReg (latch w) \<noteq> 0" "pin_clearReg (latch w) \<noteq> 0"
    "unat (parallel w) * 6 \<le> 255"
    "unat (parallel w) = 0 \<or> rgbPins w \<noteq> 0 \<and> unat (parallel w) * 6 \<le> length (rgbPins_table h w)"
    "co = Some (if rgbPins w \<noteq> 0 then w\<lparr>rgbPins := 0\<rparr> else w)"
    "h' = (let h1 = (if screenData w \<noteq> 0 then PM_FREE (screenData w) h else h);
               h2 = (if addr w \<noteq> 0 then PM_FREE (addr w) h1 else h1)
           in if rgbPins w \<noteq> 0 then PM_FREE (rgbPins w) h2 else h2)"
proof (cases "PM_stop a (Some c) es h")
  case (Inl f)
  with assms show ?thesis by (simp add: PM_free_def)
next
  case (Inr r)
  obtain so evs0 where r: "r = (so, evs0)" by (cases r)
  from Inr r obtain w evw where
    s: "stop_wait a h es c = Some (w, evw)"
      "pin_setReg (oe w) \<noteq> 0" "pin_setReg (latch w) \<noteq> 0" "pin_clearReg (latch w) \<noteq> 0"
      "unat (parallel w) * 6 \<le> 255"
      "unat (parallel w) = 0 \<or> rgbPins w \<noteq> 0 \<and> unat (parallel w) * 6 \<le> length (rgbPins_table h w)"
      "so = Some w"
    by (auto elim: stop_E)
  from assms Inr r s(7) have
    "co = Some (if rgbPins w \<noteq> 0 then w\<lparr>rgbPins := 0\<rparr> else w) \<and>
     h' = (let h1 = (if screenData w \<noteq> 0 then PM_FREE (screenData w) h else h);
               h2 = (if addr w \<noteq> 0 then PM_FREE (addr w) h1 else h1)
           in if rgbPins w \<noteq> 0 then PM_FREE (rgbPins w) h2 else h2)"
    by (simp add: PM_free_def Let_def split: if_splits)
  with s that show ?thesis by blast
qed

lemma free_released:
  assumes "PM_free a (Some c) es h = Inr (co, h', evs)"
  shows "\<exists>c'. co = Some c' \<and> rgbPins c' = 0 \<and> screenData c' = screenData c \<and> addr c' = addr c \<and>
           parallel c' = parallel c \<and> oe c' = oe c \<and> latch c' = latch c \<and> \<not> swapBuffers c' \<and>
           (\<exists>w evw. stop_wait a h es c = Some (w, evw) \<and>
              c' = (if rgbPins c \<noteq> 0 then w\<lparr>rgbPins := 0\<rparr> else w))"
    "released h' = released h @ non_null [screenData c, addr c, rgbPins c]"
    "screenData c \<noteq> 0 \<longrightarrow> blocks h' (screenData c) = None"
    "addr c \<noteq> 0 \<longrightarrow> blocks h' (addr c) = None"
    "pin_setReg (oe c) \<noteq> 0" "pin_setReg (latch c) \<noteq> 0" "pin_clearReg (latch c) \<noteq> 0"
    "unat (parallel c) * 6 \<le> 255"
    "unat (parallel c) = 0 \<or> rgbPins c \<noteq> 0 \<and> unat (parallel c) * 6 \<le> length (rgbPins_table h c)"
proof -
  from assms obtain w evw where
    s: "stop_wait a h es c = Some (w, evw)"
      "pin_setReg (oe w) \<noteq> 0" "pin_setReg (latch w) \<noteq> 0" "pin_clearReg (latch w) \<noteq> 0"
      "unat (parallel w) * 6 \<le> 255"
      "unat (parallel w) = 0 \<or> rgbPins w \<noteq> 0 \<and> unat (parallel w) * 6 \<le> length (rgbPins_table h w)"
      "co = Some (if rgbPins w \<noteq> 0 then w\<lparr>rgbPins := 0\<rparr> else w)"
      "h' = (let h1 = (if screenData w \<noteq> 0 then PM_FREE (screenData w) h else h);
               h2 = (if addr w \<noteq> 0 then PM_FREE (addr w) h1 else h1)
           in if rgbPins w \<noteq> 0 then PM_FREE (rgbPins w) h2 else h2)"
    by (rule free_E)
  note p = stop_wait_pointers [OF s(1)]
  have t: "rgbPins_table h w = rgbPins_table h c" using p by (simp add: rgbPins_table_def)
  show "\<exists>c'. co = Some c' \<and> rgbPins c' = 0 \<and> screenData c' = screenData c \<and> addr c' = addr c \<and>
           parallel c' = parallel c \<and> oe c' = oe c \<and> latch c' = latch c \<and> \<not> swapBuffers c' \<and>
           (\<exists>w evw. stop_wait a h es c = Some (w, evw) \<and>
              c' = (if rgbPins c \<noteq> 0 then w\<lparr>rgbPins := 0\<rparr> else w))"
    using s(1,7) p by auto
  show "released h' = released h @ non_null [screenData c, addr c, rgbPins c]"
    using p unfolding s(8) by (simp add: Let_def PM_FREE_def non_null_def)
  show "screenData c \<noteq> 0 \<longrightarrow> blocks h' (screenData c) = None"
    "addr c \<noteq> 0 \<longrightarrow> blocks h' (addr c) = None"
    using p unfolding s(8) by (simp_all add: Let_def PM_FREE_def)
  show "pin_setReg (oe c) \<noteq> 0" "pin_setReg (latch c) \<noteq> 0" "pin_clearReg (latch c) \<noteq> 0"
    "unat (parallel c) * 6 \<le> 255"
    "unat (parallel c) = 0 \<or> rgbPins c \<noteq> 0 \<and> unat (parallel c) * 6 \<le> length (rgbPins_table h c)"
    using s(2-6) p t by simp_all
qed

lemma free_returns:
  assumes "\<not> swapBuffers c"
    and "pin_setReg (oe c) \<noteq> 0" "pin_setReg (latch c) \<noteq> 0" "pin_clearReg (latch c) \<noteq> 0"
    and "unat (parallel c) * 6 \<le> 255"
    and "unat (parallel c) = 0 \<or> rgbPins c \<noteq> 0 \<and> unat (parallel c) * 6 \<le> length (rgbPins_table h c)"
    and "screenData c = 0 \<or> blocks h (screenData c) \<noteq> None"
    and "addr c = 0 \<or> blocks h (addr c) \<noteq> None \<and> addr c \<noteq> screenData c"
    and "rgbPins c = 0 \<or> blocks h (rgbPins c) \<noteq> None \<and> rgbPins c \<noteq> screenData c \<and> rgbPins c \<noteq> addr c"
  shows "\<exists>c' h' evs. PM_free a (Some c) es h = Inr (Some c', h', evs)"
proof -
  have "stop_wait a h es c = Some (c, [])" using assms(1) by (rule stop_wait_quiet)
  then have "PM_stop a (Some c) es h =
      Inr (Some c, [TimerStop (timer c), PM_setReg (oe c)] @
        map (\<lambda>i. PinLow (rgb_pin (rgbPins_table h c) i)) [0 ..< unat (parallel c) * 6] @
        concat (replicate (unat (width c))
          [PinHigh (clockPin c), ClockHoldHigh, PinLow (clockPin c), ClockHoldLow]) @
        [PM_setReg (latch c), PM_clearReg (latch c)])"
    using assms(2-6) by (auto simp add: PM_stop_def Let_def not_less)
  then show ?thesis using assms(7-9)
    by (auto simp add: PM_free_def Let_def PM_FREE_def)
qed


lemma free_again:
  assumes "PM_free a (Some c) es h = Inr (Some c', h', evs)"
  shows "parallel c \<noteq> 0 \<Longrightarrow> PM_free a (Some c') es2 h' = Inl InvalidPointer"
    "parallel c = 0 \<Longrightarrow> screenData c \<noteq> 0 \<or> addr c \<noteq> 0 \<Longrightarrow>
       PM_free a (Some c') es2 h' = Inl ReleaseOfDead"
    "parallel c = 0 \<Longrightarrow> screenData c = 0 \<Longrightarrow> addr c = 0 \<Longrightarrow>
       \<exists>evs2. PM_free a (Some c') es2 h' = Inr (Some c', h', evs2)"
proof -
  note f = free_released [OF assms]
  from f(1) have c': "rgbPins c' = 0" "screenData c' = screenData c" "addr c' = addr c"
    "parallel c' = parallel c" "oe c' = oe c" "latch c' = latch c" "\<not> swapBuffers c'"
    by auto
  have w: "stop_wait a h' es2 c' = Some (c', [])" using c'(7) by (rule stop_wait_quiet)
  show "PM_free a (Some c') es2 h' = Inl InvalidPointer" if "parallel c \<noteq> 0"
  proof -
    from that have "0 < unat (parallel c)" by (simp add: unat_gt_0)
    then show ?thesis using w c' f(5)
      by (simp add: PM_free_def PM_stop_def Let_def)
  qed
  show "PM_free a (Some c') es2 h' = Inl ReleaseOfDead"
    if "parallel c = 0" "screenData c \<noteq> 0 \<or> addr c \<noteq> 0"
    using that w c' f(3-7)
    by (auto simp add: PM_free_def PM_stop_def Let_def)
  show "\<exists>evs2. PM_free a (Some c') es2 h' = Inr (Some c', h', evs2)"
    if "parallel c = 0" "screenData c = 0" "addr c = 0"
    using that w c' f(5-7)
    by (simp add: PM_free_def PM_stop_def Let_def)
qed

lemma free_defined_returns:
  assumes "\<not> swapBuffers c" "free_defined h c"
  shows "\<exists>c' h' evs. PM_free a (Some c) es h = Inr (Some c', h', evs)"
  using assms(2) unfolding free_defined_def
  by (intro free_returns [OF assms(1)]) simp_all

section \<open>The example configuration evaluated\<close>

lemmas demo_defs = demo_arch_def zero_core_def fresh_heap_def null_pin_def

lemmas init_defs = PM_init_def PM_ALLOCATOR_def PM_FREE_def rgb_pin_def Let_def

lemmas begin_defs = PM_begin_def begin_bitMask_def rgbPins_table_def addr_table_def addr_line_def
  initial_bitMask_def begin_layout_def byteMask_of_def bytesPerElement_of_def columns_u16_def
  chunks_u8_def begin_masks_def toggle_narrow_def begin_remap_def begin_minPeriod_def
  MAX_REFRESH_HZ_def begin_pins_def bind_pin_def begin_addr_events_def line_bit_def PM_resume_def

lemma demo_init:
  "PM_init demo_arch (Some zero_core) 64 4 1 [0, 1, 2, 3, 4, 5] 4 [8, 9, 10, 11] 6 12 13 False 0
     (fresh_heap [True, True, True]) = (PROTOMATTER_OK, Some demo_init_core, demo_init_heap)"
  by (simp add: demo_init_core_def demo_init_heap_def demo_defs init_defs upt_rec fun_upd_twist)

lemma demo_bitMask: "begin_bitMask demo_arch demo_init_core demo_init_heap = Some 127"
  by (simp add: demo_init_core_def demo_init_heap_def demo_defs begin_bitMask_def rgbPins_table_def
      initial_bitMask_def rgb_pin_def upt_rec)

lemma demo_begin:
  "PM_begin demo_arch (Some demo_init_core) demo_init_heap =
     Inr (PROTOMATTER_OK, Some demo_core, demo_heap, demo_events)"
  by (simp add: demo_init_core_def demo_init_heap_def demo_core_def demo_heap_def demo_events_def
      demo_defs init_defs begin_defs upt_rec fun_upd_twist)

lemma demo_pow:
  "pow demo_arch 0 GAMMA = 0" "pow demo_arch 1 GAMMA = 1" "pow_unit_range demo_arch"
  by (simp_all add: demo_arch_def pow_unit_range_def GAMMA_def powr_le1)

lemma demo_chunks: "chunkSize_ok demo_arch"
  by (simp add: chunkSize_ok_def demo_arch_def)

lemma demo_alloc: "PM_ALLOCATOR n demo_init_heap = (102, demo_init_heap\<lparr>blocks := (blocks demo_init_heap)(102 \<mapsto> Raw n), brk := 103, grants := []\<rparr>)"
  by (simp add: PM_ALLOCATOR_def demo_init_heap_def)

lemma demo_variant_bitMask:
  "begin_bitMask demo_arch (demo_init_core\<lparr>numPlanes := n, width := w\<rparr>) demo_init_heap = Some 127"
  by (simp add: demo_init_core_def demo_init_heap_def demo_defs begin_bitMask_def rgbPins_table_def
      initial_bitMask_def rgb_pin_def upt_rec)

lemma demo_variant_begins:
  assumes "1 \<le> n" "n \<le> 16"
  shows "\<exists>core' h' evs. PM_begin demo_arch (Some (demo_init_core\<lparr>numPlanes := n, width := w\<rparr>)) demo_init_heap =
           Inr (PROTOMATTER_OK, Some core', h', evs)"
proof -
  let ?c = "demo_init_core\<lparr>numPlanes := n, width := w\<rparr>"
  have pre: "rgbPins ?c \<noteq> 0" "unat (parallel ?c) \<le> 5" "unat (numAddressLines ?c) \<le> 5"
    "1 \<le> numPlanes ?c" "numPlanes ?c \<le> 16" "numPlanes ?c \<le> 6 \<or> pow_unit_range demo_arch"
    using assms demo_pow(3) by (simp_all add: demo_init_core_def zero_core_def)
  show ?thesis
  proof (rule begin_returns [OF pre(1,2,3) demo_chunks pre(4,5,6), of demo_init_heap])
    assume "begin_bitMask demo_arch ?c demo_init_heap = None"
    then show ?thesis by (simp add: demo_variant_bitMask)
  next
    fix m core1 sb mb h1
    assume "PM_ALLOCATOR (unat (sb + mb)) demo_init_heap = (0, h1)"
    then show ?thesis by (simp add: demo_alloc)
  next
    fix core' h' evs
    assume "PM_begin demo_arch (Some ?c) demo_init_heap = Inr (PROTOMATTER_OK, Some core', h', evs)"
    then show ?thesis by blast
  qed
qed








lemma demo_defined:
  "\<not> swapBuffers demo_core" "free_defined demo_heap demo_core"
  "screenData demo_core = 102" "addr demo_core = 101" "rgbPins demo_core = 100"
  "parallel demo_core = 1" "released demo_heap = []"
  by (simp_all add: free_defined_def demo_core_def rgbPins_table_def demo_heap_def)

lemma wide_init:
  "PM_init demo_arch (Some zero_core) 2056 4 1 [0, 1, 2, 3, 4, 5] 4 [8, 9, 10, 11] 6 12 13 False 0
     (fresh_heap [True, True, True]) =
     (PROTOMATTER_OK, Some (demo_init_core\<lparr>numPlanes := 4, width := 2056\<rparr>), demo_init_heap)"
  by (simp add: demo_init_core_def demo_init_heap_def demo_defs init_defs upt_rec fun_upd_twist)

section \<open>Initialisation: properties\<close>

text \<open>
  Claim C1. Whenever \<^verbatim>\<open>_PM_begin\<close> succeeds, \<^verbatim>\<open>bitMask\<close> is the union of the masks
  of the RGB pins (and of the clock pin when there is a toggle register), and
  \<^verbatim>\<open>bytesPerElement\<close> is 1 when all its bits lie within one octet of the port, 2 when
  they lie within the lower or the upper half-word, and 4 in every other case, with
  \<^verbatim>\<open>portOffset = 0\<close> then; a mask spread over the two middle octets is such a case.
  (A mask without any bit, which no pin produces, also gets 4.)
\<close>

theorem planner_element_width:
  assumes "PM_begin a (Some core) h = Inr (PROTOMATTER_OK, Some core', h', evs)"
  shows "\<exists>bitMask.
           begin_bitMask a core h = Some bitMask \<and>
           bitMask = foldl (OR) (initial_bitMask a core)
                       (map (\<lambda>i. portBitMask a (rgb_pin (rgbPins_table h core) i))
                          [0 ..< unat (parallel core) * 6]) \<and>
           bytesPerElement core' = bytesPerElement_of (byteMask_of bitMask) \<and>
           bytesPerElement core' = spec_element_width bitMask \<and>
           (bytesPerElement core' = 4 \<longrightarrow> portOffset core' = 0) \<and>
           (within_region 0x00FFFF00 bitMask \<and> bitMask AND 0x0000FF00 \<noteq> 0 \<and>
            bitMask AND 0x00FF0000 \<noteq> 0 \<longrightarrow> bytesPerElement core' = 4 \<and> portOffset core' = 0)"
proof -
  from begin_width [OF assms] obtain bitMask where
    b: "begin_bitMask a core h = Some bitMask"
       "bitMask = foldl (OR) (initial_bitMask a core)
                    (map (\<lambda>i. portBitMask a (rgb_pin (rgbPins_table h core) i))
                       [0 ..< unat (parallel core) * 6])"
       "bytesPerElement core' = bytesPerElement_of (byteMask_of bitMask)"
       "bytesPerElement core' = 4 \<longrightarrow> portOffset core' = 0"
    by blast
  have sp: "bytesPerElement core' = spec_element_width bitMask"
    using b(3) by (simp add: planner_width)
  have mid: "within_region 0x00FFFF00 bitMask \<and> bitMask AND 0x0000FF00 \<noteq> 0 \<and>
            bitMask AND 0x00FF0000 \<noteq> 0 \<longrightarrow> bytesPerElement core' = 4 \<and> portOffset core' = 0"
  proof
    assume m: "within_region 0x00FFFF00 bitMask \<and> bitMask AND 0x0000FF00 \<noteq> 0 \<and>
               bitMask AND 0x00FF0000 \<noteq> 0"
    then have "bytesPerElement_of (byteMask_of bitMask) = 4"
      by (simp add: within_octets byteMask_of_def bytesPerElement_of_def Let_def)
    then have "bytesPerElement core' = 4" using b(3) by simp
    then show "bytesPerElement core' = 4 \<and> portOffset core' = 0" using b(4) by simp
  qed
  from b sp mid show ?thesis by blast
qed

theorem planner_element_width_witness:
  "PM_begin demo_arch (Some demo_init_core) demo_init_heap =
     Inr (PROTOMATTER_OK, Some demo_core, demo_heap, demo_events) \<and>
   begin_bitMask demo_arch demo_init_core demo_init_heap = Some 127 \<and>
   spec_element_width 127 = 1 \<and>
   bytesPerElement demo_core = spec_element_width 127 \<and>
   bytesPerElement_of (byteMask_of 0x00000300) = 1 \<and>
   bytesPerElement_of (byteMask_of 0x00008001) = 2 \<and>
   bytesPerElement_of (byteMask_of 0x80010000) = 2 \<and>
   bytesPerElement_of (byteMask_of 0x00018000) = 4 \<and>
   bytesPerElement_of (byteMask_of 0x01000001) = 4"
proof -
  from planner_element_width [OF demo_begin] obtain bm where
    bm: "begin_bitMask demo_arch demo_init_core demo_init_heap = Some bm"
        "bytesPerElement demo_core = spec_element_width bm"
    by blast
  from bm(1) demo_bitMask have "bm = 127" by simp
  with bm(2) have "bytesPerElement demo_core = spec_element_width 127" by simp
  moreover have "spec_element_width 127 = 1"
    by (simp add: spec_element_width_def spec_one_octet_def within_region_def)
  moreover have "bytesPerElement_of (byteMask_of 0x00000300) = 1"
    "bytesPerElement_of (byteMask_of 0x00008001) = 2"
    "bytesPerElement_of (byteMask_of 0x80010000) = 2"
    "bytesPerElement_of (byteMask_of 0x00018000) = 4"
    "bytesPerElement_of (byteMask_of 0x01000001) = 4"
    by (simp_all add: byteMask_of_def bytesPerElement_of_def)
  ultimately show ?thesis using demo_begin demo_bitMask by simp
qed

text \<open>
  Claim C2. The specification takes the padded width to be the width rounded up to a
  multiple of the chunk size. \<^verbatim>\<open>_PM_begin\<close> keeps the number of chunks in eight bits, so
  for a chain of 2056 columns and chunks of 8 it counts 1 chunk instead of 257: it
  plans 8 columns and a buffer of 512 bytes, where the rounded width of 2056 columns
  asks for 131584 bytes; the interrupt handler computes its offsets with 2056 elements
  per line.
\<close>

theorem chunks_truncated:
  "PM_init demo_arch (Some zero_core) 2056 4 1 [0, 1, 2, 3, 4, 5] 4 [8, 9, 10, 11] 6 12 13 False 0
     (fresh_heap [True, True, True]) =
     (PROTOMATTER_OK, Some (demo_init_core\<lparr>numPlanes := 4, width := 2056\<rparr>), demo_init_heap) \<and>
   (\<exists>core' h' evs.
      PM_begin demo_arch (Some (demo_init_core\<lparr>numPlanes := 4, width := 2056\<rparr>)) demo_init_heap =
        Inr (PROTOMATTER_OK, Some core', h', evs) \<and>
      width core' = 2056 \<and> numRowPairs core' = 16 \<and> numPlanes core' = 4 \<and>
      bytesPerElement core' = 1 \<and>
      columns_u16 demo_arch (demo_init_core\<lparr>numPlanes := 4, width := 2056\<rparr>) = 8 \<and>
      bufferSize core' = 512 \<and>
      (2056 + (8 - 1)) div 8 * 8 * 16 * 4 * 1 = (131584 :: nat) \<and>
      elementsPerLine demo_arch core' = 2056)"
proof -
  let ?c = "demo_init_core\<lparr>numPlanes := 4, width := 2056\<rparr>"
  from demo_variant_begins [where n = 4 and w = 2056] obtain core' h' evs where
    b: "PM_begin demo_arch (Some ?c) demo_init_heap = Inr (PROTOMATTER_OK, Some core', h', evs)"
    by auto
  note z = begin_sizes [OF b]
  from begin_width [OF b] obtain bm where
    bm: "begin_bitMask demo_arch ?c demo_init_heap = Some bm"
        "bytesPerElement core' = bytesPerElement_of (byteMask_of bm)"
    by blast
  from bm(1) demo_variant_bitMask [where n = 4 and w = 2056] have "bm = 127" by simp
  with bm(2) have bpe: "bytesPerElement core' = 1"
    by (simp add: byteMask_of_def bytesPerElement_of_def)
  have w: "width core' = 2056" "numPlanes core' = 4" "numRowPairs core' = 16"
    using z(2,3,4) by (simp_all add: demo_init_core_def zero_core_def)
  have cols: "columns_u16 demo_arch ?c = 8"
    by (simp add: columns_u16_def chunks_u8_def demo_arch_def)
  have bs: "bufferSize core' = 512"
    unfolding z(1) bpe cols w by simp
  have epl: "elementsPerLine demo_arch core' = 2056"
    by (simp add: elementsPerLine_def w demo_arch_def)
  from wide_init b w bpe cols bs epl show ?thesis by simp
qed

text \<open>
  Claim C7. After a successful \<^verbatim>\<open>_PM_begin\<close> with 1 to 12 bitplanes, both remap tables
  start at 0 and end at \<open>2 ^ numPlanes - 1\<close> (\<^verbatim>\<open>remap_rb\<close> at index 31, \<^verbatim>\<open>remap_g\<close> at
  index 63), whichever of the three constructions applies. For the third one this rests on
  \<^verbatim>\<open>pow\<close> returning 0 at 0 and 1 at 1, as the C library does.
\<close>

theorem remap_endpoints:
  assumes "PM_begin a (Some core) h = Inr (PROTOMATTER_OK, Some core', h', evs)"
    and "1 \<le> numPlanes core" and "numPlanes core \<le> 12"
    and "pow a 0 GAMMA = 0" and "pow a 1 GAMMA = 1"
  shows "length (remap_rb core') = 32 \<and> remap_rb core' ! 0 = 0 \<and>
         remap_rb core' ! 31 = 2 ^ unat (numPlanes core) - 1 \<and>
         length (remap_g core') = 64 \<and> remap_g core' ! 0 = 0 \<and>
         remap_g core' ! 63 = 2 ^ unat (numPlanes core) - 1"
proof -
  from assms(1) obtain bitMask core1 screenBytes rgbMaskBytes p h1 core4 masks ev1 core5 core6 core7 h3 ev2
    where s: "begin_layout a bitMask core = Inr (core1, screenBytes, rgbMaskBytes)"
      "begin_masks a (rgbPins_table h core) bitMask screenBytes
         (core1\<lparr>screenData := p, rgbMask := p + unat screenBytes\<rparr>) = (core4, masks, ev1)"
      "begin_remap a core4 = Inr core5"
      "begin_minPeriod a core5 = Inr core6"
      "begin_pins a (rgbPins_table h core)
         (h1\<lparr>blocks := (blocks h1)(p \<mapsto> ScreenBlock (unat (screenBytes + rgbMaskBytes)) masks)\<rparr>)
         core6 = (core7, h3, ev2)"
      "core' = fst (PM_resume core7)"
    by (rule begin_OK_E)
  have c7: "core7 = fst (begin_pins a (rgbPins_table h core)
         (h1\<lparr>blocks := (blocks h1)(p \<mapsto> ScreenBlock (unat (screenBytes + rgbMaskBytes)) masks)\<rparr>)
         core6)"
    using s(5) by simp
  have np4: "numPlanes core4 = numPlanes core"
    using masks_frame(4) [OF s(2)] layout_frame(4) [OF s(1)] by simp
  have t: "remap_rb core' = remap_rb core5" "remap_g core' = remap_g core5"
    unfolding s(6) c7 by (simp_all add: minPeriod_frame(11,12) [OF s(4)])
  from remap_stage_ends [OF s(3) assms(2,3,4,5) [folded np4]] show ?thesis
    unfolding t np4 .
qed

theorem remap_endpoints_witness:
  "remap_rb demo_core ! 0 = 0 \<and> remap_rb demo_core ! 31 = 15 \<and>
   remap_g demo_core ! 0 = 0 \<and> remap_g demo_core ! 63 = 15 \<and>
   (\<exists>core' h' evs.
      PM_begin demo_arch (Some (demo_init_core\<lparr>numPlanes := 8, width := 64\<rparr>)) demo_init_heap =
        Inr (PROTOMATTER_OK, Some core', h', evs) \<and>
      remap_rb core' ! 0 = 0 \<and> remap_rb core' ! 31 = 255 \<and>
      remap_g core' ! 0 = 0 \<and> remap_g core' ! 63 = 255)"
proof -
  have v4: "1 \<le> numPlanes demo_init_core" "numPlanes demo_init_core \<le> 12"
    "unat (numPlanes demo_init_core) = 4"
    by (simp_all add: demo_init_core_def zero_core_def)
  from remap_endpoints [OF demo_begin v4(1,2) demo_pow(1,2)]
  have a: "remap_rb demo_core ! 0 = 0 \<and> remap_rb demo_core ! 31 = 15 \<and>
           remap_g demo_core ! 0 = 0 \<and> remap_g demo_core ! 63 = 15"
    unfolding v4(3) by simp
  let ?c = "demo_init_core\<lparr>numPlanes := 8, width := 64\<rparr>"
  have v8: "1 \<le> numPlanes ?c" "numPlanes ?c \<le> 12" "unat (numPlanes ?c) = 8"
    by simp_all
  from demo_variant_begins [where n = 8 and w = 64] obtain core' h' evs where
    b: "PM_begin demo_arch (Some ?c) demo_init_heap = Inr (PROTOMATTER_OK, Some core', h', evs)"
    by auto
  from remap_endpoints [OF b v8(1,2) demo_pow(1,2)]
  have "remap_rb core' ! 0 = 0 \<and> remap_rb core' ! 31 = 255 \<and>
        remap_g core' ! 0 = 0 \<and> remap_g core' ! 63 = 255"
    unfolding v8(3) by simp
  with a b show ?thesis by blast
qed

text \<open>
  Claim C9. After a successful \<^verbatim>\<open>_PM_begin\<close>, \<^verbatim>\<open>minPeriod\<close> is the timer frequency
  divided by 250, then by \<^verbatim>\<open>numRowPairs\<close>, then by \<open>2 ^ numPlanes - 1\<close>, each time
  dropping the remainder, and raised to \<^verbatim>\<open>_PM_minMinPeriod\<close> when below it. Neither divisor
  is zero then.
\<close>

theorem minPeriod_of_begin:
  assumes "PM_begin a (Some core) h = Inr (PROTOMATTER_OK, Some core', h', evs)"
  shows "numRowPairs core' = of_nat (2 ^ unat (numAddressLines core)) \<and>
         numRowPairs core' \<noteq> 0 \<and> numPlanes core' = numPlanes core \<and>
         numPlanes core \<noteq> 0 \<and> unat (numPlanes core) < 31 \<and>
         minPeriod core' = max (minMinPeriod a)
           (((timerFreq a div MAX_REFRESH_HZ) div ucast (numRowPairs core')) div
              of_nat (2 ^ unat (numPlanes core) - 1)) \<and>
         unat (minPeriod core') = max (unat (minMinPeriod a))
           (((unat (timerFreq a) div 250) div unat (numRowPairs core')) div
              (2 ^ unat (numPlanes core) - 1))"
proof -
  from assms obtain bitMask core1 screenBytes rgbMaskBytes p h1 core4 masks ev1 core5 core6 core7 h3 ev2
    where s: "begin_layout a bitMask core = Inr (core1, screenBytes, rgbMaskBytes)"
      "begin_masks a (rgbPins_table h core) bitMask screenBytes
         (core1\<lparr>screenData := p, rgbMask := p + unat screenBytes\<rparr>) = (core4, masks, ev1)"
      "begin_remap a core4 = Inr core5"
      "begin_minPeriod a core5 = Inr core6"
      "begin_pins a (rgbPins_table h core)
         (h1\<lparr>blocks := (blocks h1)(p \<mapsto> ScreenBlock (unat (screenBytes + rgbMaskBytes)) masks)\<rparr>)
         core6 = (core7, h3, ev2)"
      "core' = fst (PM_resume core7)"
    by (rule begin_OK_E)
  have c7: "core7 = fst (begin_pins a (rgbPins_table h core)
         (h1\<lparr>blocks := (blocks h1)(p \<mapsto> ScreenBlock (unat (screenBytes + rgbMaskBytes)) masks)\<rparr>)
         core6)"
    using s(5) by simp
  have rp5: "numRowPairs core5 = of_nat (2 ^ unat (numAddressLines core))"
    using remap_frame(4) [OF s(3)] masks_frame(3) [OF s(2)] layout_frame(2) [OF s(1)] by simp
  have np5: "numPlanes core5 = numPlanes core"
    using remap_frame(5) [OF s(3)] masks_frame(4) [OF s(2)] layout_frame(4) [OF s(1)] by simp
  have rp: "numRowPairs core' = numRowPairs core5"
    unfolding s(6) c7 by (simp add: minPeriod_frame(4) [OF s(4)])
  have np: "numPlanes core' = numPlanes core"
    unfolding s(6) c7 by (simp add: minPeriod_frame(5) [OF s(4)] np5)
  have mp: "minPeriod core' = minPeriod core6"
    unfolding s(6) c7 by simp
  note st = minPeriod_stage [OF s(4), unfolded np5]
  have w: "minPeriod core' = max (minMinPeriod a)
           (((timerFreq a div MAX_REFRESH_HZ) div ucast (numRowPairs core')) div
              of_nat (2 ^ unat (numPlanes core) - 1))"
    unfolding mp rp MAX_REFRESH_HZ_def by (rule st(4))
  have n: "unat (minPeriod core') = max (unat (minMinPeriod a))
           (((unat (timerFreq a) div 250) div unat (numRowPairs core')) div
              (2 ^ unat (numPlanes core) - 1))"
    unfolding w MAX_REFRESH_HZ_def
    by (simp add: unat_max unat_div unat_ucast_u8 unat_mask_nat [OF st(3)])
  from rp rp5 st(1) np st(2) st(3) w n show ?thesis by simp
qed

theorem minPeriod_of_begin_witness:
  "PM_begin demo_arch (Some demo_init_core) demo_init_heap =
     Inr (PROTOMATTER_OK, Some demo_core, demo_heap, demo_events) \<and>
   unat (minPeriod demo_core) = max 160 (((48000000 div 250) div 16) div (2 ^ 4 - 1)) \<and>
   minPeriod demo_core = 800"
proof -
  have v: "unat (minMinPeriod demo_arch) = 160" "unat (timerFreq demo_arch) = 48000000"
    "unat (numRowPairs demo_core) = 16" "unat (numPlanes demo_init_core) = 4"
    by (simp_all add: demo_arch_def demo_core_def demo_init_core_def zero_core_def)
  from minPeriod_of_begin [OF demo_begin]
  have "unat (minPeriod demo_core) = max 160 (((48000000 div 250) div 16) div (2 ^ 4 - 1))"
    unfolding v by blast
  moreover have "minPeriod demo_core = 800" by (simp add: demo_core_def)
  ultimately show ?thesis using demo_begin by simp
qed

section \<open>The interrupt handler: properties\<close>

text \<open>
  Claim C3. The handler takes \<^verbatim>\<open>swapBuffers\<close> from set to clear only in the step that
  rolls the cursor over to row 0, bitplane 0 (the frame boundary), and in that step it
  replaces \<^verbatim>\<open>activeBuffer\<close> by \<^verbatim>\<open>1 - activeBuffer\<close>; with \<^verbatim>\<open>swapBuffers\<close> clear
  the step leaves \<^verbatim>\<open>activeBuffer\<close> alone, at the frame boundary too. Over a run of the
  handler from a cursor in range, a request that is set is served exactly once, at the
  first frame boundary the run reaches.
\<close>

theorem swap_at_frame_boundary:
  "(swapBuffers c \<and> \<not> swapBuffers (fst (PM_row_handler a h e c)) \<longrightarrow>
      frame_boundary c \<and>
      row (fst (PM_row_handler a h e c)) = 0 \<and> plane (fst (PM_row_handler a h e c)) = 0 \<and>
      activeBuffer (fst (PM_row_handler a h e c)) = 1 - activeBuffer c) \<and>
   (swapBuffers c \<and> frame_boundary c \<longrightarrow>
      \<not> swapBuffers (fst (PM_row_handler a h e c)) \<and>
      activeBuffer (fst (PM_row_handler a h e c)) = 1 - activeBuffer c) \<and>
   (\<not> swapBuffers c \<longrightarrow>
      \<not> swapBuffers (fst (PM_row_handler a h e c)) \<and>
      activeBuffer (fst (PM_row_handler a h e c)) = activeBuffer c) \<and>
   (\<not> frame_boundary c \<longrightarrow>
      swapBuffers (fst (PM_row_handler a h e c)) = swapBuffers c \<and>
      activeBuffer (fst (PM_row_handler a h e c)) = activeBuffer c) \<and>
   (cursor_in_range c \<longrightarrow>
      (frame_boundary c \<longleftrightarrow>
         row (fst (PM_row_handler a h e c)) = 0 \<and> plane (fst (PM_row_handler a h e c)) = 0) \<and>
      swapBuffers (run_handler a h es c) =
        (swapBuffers c \<and> cursor_index c + length es < cursor_period c) \<and>
      activeBuffer (run_handler a h es c) =
        (if swapBuffers c \<and> cursor_period c \<le> cursor_index c + length es
         then 1 - activeBuffer c else activeBuffer c))"
proof -
  have bnd: "swapBuffers c \<and> \<not> swapBuffers (fst (PM_row_handler a h e c)) \<longrightarrow> frame_boundary c"
    by (simp add: handler_core advance_swap)
  have rng: "cursor_in_range c \<longrightarrow>
      (frame_boundary c \<longleftrightarrow>
         row (fst (PM_row_handler a h e c)) = 0 \<and> plane (fst (PM_row_handler a h e c)) = 0) \<and>
      swapBuffers (run_handler a h es c) =
        (swapBuffers c \<and> cursor_index c + length es < cursor_period c) \<and>
      activeBuffer (run_handler a h es c) =
        (if swapBuffers c \<and> cursor_period c \<le> cursor_index c + length es
         then 1 - activeBuffer c else activeBuffer c)"
  proof
    assume r: "cursor_in_range c"
    note h1 = handler_in_range [OF r, of a h e]
    have lt: "cursor_index c < cursor_period c" by (rule advance_in_range(4) [OF r])
    have "frame_boundary c \<longleftrightarrow> cursor_index c + 1 = cursor_period c"
      by (rule advance_in_range(3) [OF r])
    also have "\<dots> \<longleftrightarrow> (cursor_index c + 1) mod cursor_period c = 0"
      using lt by (cases "cursor_index c + 1 = cursor_period c") simp_all
    also have "\<dots> \<longleftrightarrow> cursor_index (fst (PM_row_handler a h e c)) = 0"
      by (simp only: h1(2))
    also have "\<dots> \<longleftrightarrow> row (fst (PM_row_handler a h e c)) = 0 \<and> plane (fst (PM_row_handler a h e c)) = 0"
      by (rule index_zero [OF h1(1)])
    finally have fb: "frame_boundary c \<longleftrightarrow>
         row (fst (PM_row_handler a h e c)) = 0 \<and> plane (fst (PM_row_handler a h e c)) = 0" .
    from fb run_in_range [OF r, of a h es] show
     "(frame_boundary c \<longleftrightarrow>
         row (fst (PM_row_handler a h e c)) = 0 \<and> plane (fst (PM_row_handler a h e c)) = 0) \<and>
      swapBuffers (run_handler a h es c) =
        (swapBuffers c \<and> cursor_index c + length es < cursor_period c) \<and>
      activeBuffer (run_handler a h es c) =
        (if swapBuffers c \<and> cursor_period c \<le> cursor_index c + length es
         then 1 - activeBuffer c else activeBuffer c)"
      by blast
  qed
  from swap_step [of c a h e] bnd rng show ?thesis by blast
qed

theorem swap_at_frame_boundary_witness:
  "cursor_in_range (demo_core\<lparr>plane := 2, swapBuffers := True\<rparr>) \<and>
   swapBuffers (run_handler demo_arch demo_heap [300] (demo_core\<lparr>plane := 2, swapBuffers := True\<rparr>)) \<and>
   activeBuffer (run_handler demo_arch demo_heap [300] (demo_core\<lparr>plane := 2, swapBuffers := True\<rparr>)) = 0 \<and>
   \<not> swapBuffers (run_handler demo_arch demo_heap [300, 310] (demo_core\<lparr>plane := 2, swapBuffers := True\<rparr>)) \<and>
   activeBuffer (run_handler demo_arch demo_heap [300, 310] (demo_core\<lparr>plane := 2, swapBuffers := True\<rparr>)) = 1 \<and>
   activeBuffer (run_handler demo_arch demo_heap [300, 310, 305, 295] (demo_core\<lparr>plane := 2, swapBuffers := True\<rparr>)) = 1"
proof -
  let ?c = "demo_core\<lparr>plane := 2, swapBuffers := True\<rparr>"
  have r: "cursor_in_range ?c"
    by (simp add: demo_core_def cursor_in_range_def)
  have v: "cursor_index ?c = 62" "cursor_period ?c = 64" "swapBuffers ?c" "activeBuffer ?c = 0"
    by (simp_all add: demo_core_def cursor_index_def cursor_period_def)
  have run: "swapBuffers (run_handler demo_arch demo_heap es ?c) = (62 + length es < 64) \<and>
             activeBuffer (run_handler demo_arch demo_heap es ?c) = (if 64 \<le> 62 + length es then 1 else 0)"
    for es
    using swap_at_frame_boundary [of ?c demo_arch demo_heap 300 es] r
    unfolding v by simp
  show ?thesis
    using r run [of "[300]"] run [of "[300, 310]"] run [of "[300, 310, 305, 295]"]
    by (simp del: run_handler.simps)
qed

text \<open>
  Claim C4. From a cursor in range (\<^verbatim>\<open>plane < numPlanes\<close>, \<^verbatim>\<open>row < numRowPairs\<close>) the
  handler moves the cursor through all pairs of row and bitplane in row-major order, the
  bitplane first and the row when the bitplane rolls over: after any number of
  interrupts the position is the old one plus that number, modulo
  \<^verbatim>\<open>numRowPairs * numPlanes\<close>; a full period brings the cursor back, every pair is
  reached within a period, and \<^verbatim>\<open>frameCount\<close> grows by one each time the cursor comes
  to row 0, bitplane 0.
\<close>

theorem cursor_walk:
  assumes "cursor_in_range c"
  shows "cursor_in_range (run_handler a h es c) \<and>
         cursor_index (run_handler a h es c) = (cursor_index c + length es) mod cursor_period c \<and>
         unat (row (run_handler a h es c)) = cursor_index (run_handler a h es c) div unat (numPlanes c) \<and>
         unat (plane (run_handler a h es c)) = cursor_index (run_handler a h es c) mod unat (numPlanes c) \<and>
         (length es = cursor_period c \<longrightarrow>
            row (run_handler a h es c) = row c \<and> plane (run_handler a h es c) = plane c) \<and>
         (\<forall>r p. r < unat (numRowPairs c) \<and> p < unat (numPlanes c) \<longrightarrow>
            (\<exists>k < cursor_period c. \<forall>es'. length es' = k \<longrightarrow>
               unat (row (run_handler a h es' c)) = r \<and> unat (plane (run_handler a h es' c)) = p)) \<and>
         plane (fst (PM_row_handler a h e c)) =
           (if plane c + 1 < numPlanes c then plane c + 1 else 0) \<and>
         row (fst (PM_row_handler a h e c)) =
           (if plane c + 1 < numPlanes c then row c
            else if row c + 1 < numRowPairs c then row c + 1 else 0) \<and>
         frameCount (run_handler a h es c) = frameCount c + of_nat (reentries a h es c) \<and>
         reentries a h es c = (cursor_index c + length es) div cursor_period c"
proof -
  let ?N = "cursor_period c" and ?P = "unat (numPlanes c)"
  note R = run_in_range [OF assms]
  have lt: "cursor_index c < ?N" by (rule advance_in_range(4) [OF assms])
  have rng: "cursor_in_range (run_handler a h es c)" using R [of a h es] by simp
  have idx: "cursor_index (run_handler a h es c) = (cursor_index c + length es) mod ?N"
    using R [of a h es] by simp
  have dec: "unat (row (run_handler a h es c)) = cursor_index (run_handler a h es c) div ?P"
            "unat (plane (run_handler a h es c)) = cursor_index (run_handler a h es c) mod ?P"
    using cursor_decode [OF rng] by simp_all
  have per: "length es = ?N \<longrightarrow>
            row (run_handler a h es c) = row c \<and> plane (run_handler a h es c) = plane c"
  proof
    assume "length es = ?N"
    then have "cursor_index (run_handler a h es c) = cursor_index c" using idx lt by simp
    then have "unat (row (run_handler a h es c)) = unat (row c)"
              "unat (plane (run_handler a h es c)) = unat (plane c)"
      using dec cursor_decode [OF assms] by simp_all
    then show "row (run_handler a h es c) = row c \<and> plane (run_handler a h es c) = plane c"
      by (simp add: word_unat_eq_iff)
  qed
  have every: "\<forall>r p. r < unat (numRowPairs c) \<and> p < ?P \<longrightarrow>
            (\<exists>k < ?N. \<forall>es'. length es' = k \<longrightarrow>
               unat (row (run_handler a h es' c)) = r \<and> unat (plane (run_handler a h es' c)) = p)"
  proof (intro allI impI)
    fix r p
    assume rp: "r < unat (numRowPairs c) \<and> p < ?P"
    define t where "t = ?P * r + p"
    have t: "t < ?N" using index_bound [of p ?P r "unat (numRowPairs c)"] rp
      by (simp add: t_def cursor_period_def)
    define k where "k = (if cursor_index c \<le> t then t - cursor_index c else t + ?N - cursor_index c)"
    have k: "k < ?N"
    proof (cases "cursor_index c \<le> t")
      case True
      then have "k = t - cursor_index c" by (simp add: k_def)
      then show ?thesis using t by arith
    next
      case False
      then have "k = t + ?N - cursor_index c" by (simp add: k_def)
      then show ?thesis using False lt by arith
    qed
    have tk: "(cursor_index c + k) mod ?N = t"
    proof (cases "cursor_index c \<le> t")
      case True
      then have "cursor_index c + k = t" by (simp add: k_def)
      then show ?thesis using t by simp
    next
      case False
      then have "cursor_index c + k = t + ?N" using lt by (simp add: k_def)
      then show ?thesis using t by simp
    qed
    have "\<forall>es'. length es' = k \<longrightarrow>
               unat (row (run_handler a h es' c)) = r \<and> unat (plane (run_handler a h es' c)) = p"
    proof (intro allI impI)
      fix es' :: "u32 list"
      assume len: "length es' = k"
      note R' = run_in_range [OF assms, of a h es']
      have i': "cursor_index (run_handler a h es' c) = t" using R' len tk by simp
      have rng': "cursor_in_range (run_handler a h es' c)" using R' by simp
      show "unat (row (run_handler a h es' c)) = r \<and> unat (plane (run_handler a h es' c)) = p"
        using cursor_decode [OF rng'] i' rp by (simp add: t_def)
    qed
    with k show "\<exists>k < ?N. \<forall>es'. length es' = k \<longrightarrow>
               unat (row (run_handler a h es' c)) = r \<and> unat (plane (run_handler a h es' c)) = p"
      by blast
  qed
  have step: "plane (fst (PM_row_handler a h e c)) =
           (if plane c + 1 < numPlanes c then plane c + 1 else 0)"
         "row (fst (PM_row_handler a h e c)) =
           (if plane c + 1 < numPlanes c then row c
            else if row c + 1 < numRowPairs c then row c + 1 else 0)"
    by (auto simp add: handler_core advance_swap not_less)
  have re: "reentries a h es c = (cursor_index c + length es) div ?N"
    by (rule reentries_count [OF assms])
  have fc: "frameCount (run_handler a h es c) = frameCount c + of_nat (reentries a h es c)"
    using R [of a h es] re by simp
  from rng idx dec per every step fc re show ?thesis by blast
qed

theorem cursor_walk_witness:
  "cursor_in_range demo_core \<and>
   cursor_index (run_handler demo_arch demo_heap [300, 310, 305] demo_core) = 2 \<and>
   unat (row (run_handler demo_arch demo_heap [300, 310, 305] demo_core)) = 0 \<and>
   unat (plane (run_handler demo_arch demo_heap [300, 310, 305] demo_core)) = 2 \<and>
   frameCount (run_handler demo_arch demo_heap [300, 310, 305] demo_core) = 1 \<and>
   reentries demo_arch demo_heap [300, 310, 305] demo_core = 1"
proof -
  have r: "cursor_in_range demo_core"
    by (simp add: demo_core_def cursor_in_range_def)
  have v: "cursor_index demo_core = 63" "cursor_period demo_core = 64"
          "unat (numPlanes demo_core) = 4" "frameCount demo_core = 0"
    by (simp_all add: demo_core_def cursor_index_def cursor_period_def)
  show ?thesis
    using r cursor_walk [OF r, of demo_arch demo_heap "[300, 310, 305]" 300]
    unfolding v by (simp del: run_handler.simps reentries.simps)
qed

text \<open>
  Claim C5. Each call of the handler starts the timer once, with
  \<^verbatim>\<open>bitZeroPeriod << prevPlane\<close> ticks, \<^verbatim>\<open>prevPlane\<close> being the bitplane index read
  before the cursor moves. In 32-bit arithmetic this is \<^verbatim>\<open>bitZeroPeriod\<close> times
  \<open>2 ^ prevPlane\<close>, and where the call does not update the estimate (\<^verbatim>\<open>prevPlane\<close> is
  not 1 and there is more than one bitplane) it is the old \<^verbatim>\<open>bitZeroPeriod\<close> times
  \<open>2 ^ prevPlane\<close>; as natural numbers the two agree as long as the product fits 32
  bits.
\<close>

theorem timer_armed:
  "timer_starts (snd (PM_row_handler a h e c)) =
     [push_bit (unat (plane c)) (bitZeroPeriod (fst (PM_row_handler a h e c)))] \<and>
   push_bit (unat (plane c)) (bitZeroPeriod (fst (PM_row_handler a h e c))) =
     bitZeroPeriod (fst (PM_row_handler a h e c)) * 2 ^ unat (plane c) \<and>
   (plane c \<noteq> 1 \<and> numPlanes c \<noteq> 1 \<longrightarrow>
      bitZeroPeriod (fst (PM_row_handler a h e c)) = bitZeroPeriod c \<and>
      timer_starts (snd (PM_row_handler a h e c)) = [bitZeroPeriod c * 2 ^ unat (plane c)]) \<and>
   (unat (bitZeroPeriod (fst (PM_row_handler a h e c))) * 2 ^ unat (plane c) < 2 ^ 32 \<longrightarrow>
      map unat (timer_starts (snd (PM_row_handler a h e c))) =
        [unat (bitZeroPeriod (fst (PM_row_handler a h e c))) * 2 ^ unat (plane c)])"
proof -
  let ?c' = "fst (PM_row_handler a h e c)"
  have ev: "timer_starts (snd (PM_row_handler a h e c)) = [push_bit (unat (plane c)) (bitZeroPeriod ?c')]"
    by (rule handler_events)
  have pb: "push_bit (unat (plane c)) (bitZeroPeriod ?c') = bitZeroPeriod ?c' * 2 ^ unat (plane c)"
    by (simp add: push_bit_eq_mult)
  have un: "plane c \<noteq> 1 \<and> numPlanes c \<noteq> 1 \<longrightarrow> bitZeroPeriod ?c' = bitZeroPeriod c"
    by (simp add: handler_bzp update_bitZeroPeriod_def)
  have ex: "unat (bitZeroPeriod ?c') * 2 ^ unat (plane c) < 2 ^ 32 \<longrightarrow>
      map unat (timer_starts (snd (PM_row_handler a h e c))) =
        [unat (bitZeroPeriod ?c') * 2 ^ unat (plane c)]"
  proof
    assume b: "unat (bitZeroPeriod ?c') * 2 ^ unat (plane c) < 2 ^ 32"
    have "unat (push_bit (unat (plane c)) (bitZeroPeriod ?c')) =
          take_bit 32 (unat (bitZeroPeriod ?c') * 2 ^ unat (plane c))"
      by (subst unsigned_push_bit_eq) (simp add: push_bit_eq_mult)
    also have "\<dots> = unat (bitZeroPeriod ?c') * 2 ^ unat (plane c)"
      using b by (simp add: take_bit_nat_eq_self)
    finally show "map unat (timer_starts (snd (PM_row_handler a h e c))) =
        [unat (bitZeroPeriod ?c') * 2 ^ unat (plane c)]"
      by (simp add: ev)
  qed
  from ev pb un ex show ?thesis by simp
qed

theorem timer_armed_witness:
  "plane (demo_core\<lparr>plane := 2\<rparr>) \<noteq> 1 \<and> numPlanes (demo_core\<lparr>plane := 2\<rparr>) \<noteq> 1 \<and>
   timer_starts (snd (PM_row_handler demo_arch demo_heap 300 (demo_core\<lparr>plane := 2\<rparr>))) = [1280] \<and>
   map unat (timer_starts (snd (PM_row_handler demo_arch demo_heap 300 (demo_core\<lparr>plane := 2\<rparr>)))) = [1280]"
proof -
  let ?c = "demo_core\<lparr>plane := 2\<rparr>"
  have v: "plane ?c \<noteq> 1 \<and> numPlanes ?c \<noteq> 1" "bitZeroPeriod ?c = 320" "unat (plane ?c) = 2"
    by (simp_all add: demo_core_def)
  from timer_armed [of demo_arch demo_heap 300 ?c] v(1)
  have "timer_starts (snd (PM_row_handler demo_arch demo_heap 300 ?c)) =
          [bitZeroPeriod ?c * 2 ^ unat (plane ?c)]"
    by blast
  then have "timer_starts (snd (PM_row_handler demo_arch demo_heap 300 ?c)) = [1280]"
    unfolding v by simp
  then show ?thesis using v(1) by simp
qed

text \<open>
  Claim C6. The handler replaces \<^verbatim>\<open>bitZeroPeriod\<close> by
  \<^verbatim>\<open>(bitZeroPeriod * 7 + elapsed) / 8\<close>, raised to \<^verbatim>\<open>minPeriod\<close> when below it, if
  and only if the bitplane index it reads on entry is 1 or there is one bitplane only;
  otherwise \<^verbatim>\<open>bitZeroPeriod\<close> stays as it is. The arithmetic is that of 32-bit unsigned
  integers, and agrees with the natural numbers as long as the sum fits 32 bits.
\<close>

theorem period_update:
  "bitZeroPeriod (fst (PM_row_handler a h e c)) =
     (if plane c = 1 \<or> numPlanes c = 1
      then (if (bitZeroPeriod c * 7 + e) div 8 < minPeriod c then minPeriod c
            else (bitZeroPeriod c * 7 + e) div 8)
      else bitZeroPeriod c) \<and>
   minPeriod (fst (PM_row_handler a h e c)) = minPeriod c \<and>
   ((plane c = 1 \<or> numPlanes c = 1) \<and> 7 * unat (bitZeroPeriod c) + unat e < 2 ^ 32 \<longrightarrow>
      unat (bitZeroPeriod (fst (PM_row_handler a h e c))) =
        max (unat (minPeriod c)) ((7 * unat (bitZeroPeriod c) + unat e) div 8))"
proof -
  have w: "bitZeroPeriod (fst (PM_row_handler a h e c)) =
     (if plane c = 1 \<or> numPlanes c = 1
      then (if (bitZeroPeriod c * 7 + e) div 8 < minPeriod c then minPeriod c
            else (bitZeroPeriod c * 7 + e) div 8)
      else bitZeroPeriod c)"
    by (simp add: handler_bzp update_bitZeroPeriod_def Let_def)
  have n: "(plane c = 1 \<or> numPlanes c = 1) \<and> 7 * unat (bitZeroPeriod c) + unat e < 2 ^ 32 \<longrightarrow>
      unat (bitZeroPeriod (fst (PM_row_handler a h e c))) =
        max (unat (minPeriod c)) ((7 * unat (bitZeroPeriod c) + unat e) div 8)"
  proof
    assume h: "(plane c = 1 \<or> numPlanes c = 1) \<and> 7 * unat (bitZeroPeriod c) + unat e < 2 ^ 32"
    then have m: "unat (bitZeroPeriod c) * unat (7 :: u32) < 2 ^ 32" by simp
    have "unat (bitZeroPeriod c * 7) = unat (bitZeroPeriod c) * 7"
      using m unat_mult_lem [of "bitZeroPeriod c" 7] by simp
    moreover have "unat (bitZeroPeriod c * 7 + e) = unat (bitZeroPeriod c * 7) + unat e"
      using h calculation unat_add_lem [of "bitZeroPeriod c * 7" e] by simp
    ultimately have s: "unat ((bitZeroPeriod c * 7 + e) div 8) = (7 * unat (bitZeroPeriod c) + unat e) div 8"
      by (simp add: unat_div mult.commute)
    show "unat (bitZeroPeriod (fst (PM_row_handler a h e c))) =
        max (unat (minPeriod c)) ((7 * unat (bitZeroPeriod c) + unat e) div 8)"
      using h s by (auto simp add: w word_less_nat_alt max_def)
  qed
  from w n show ?thesis by (simp add: handler_bzp)
qed

theorem period_update_witness:
  "bitZeroPeriod (fst (PM_row_handler demo_arch demo_heap 8000 (demo_core\<lparr>plane := 1\<rparr>))) = 1280 \<and>
   bitZeroPeriod (fst (PM_row_handler demo_arch demo_heap 300 (demo_core\<lparr>plane := 1\<rparr>))) = 800 \<and>
   bitZeroPeriod (fst (PM_row_handler demo_arch demo_heap 8000 (demo_core\<lparr>plane := 2\<rparr>))) = 320 \<and>
   unat (bitZeroPeriod (fst (PM_row_handler demo_arch demo_heap 8000 (demo_core\<lparr>plane := 1\<rparr>)))) =
     max 800 ((7 * 320 + 8000) div 8)"
proof -
  have a: "bitZeroPeriod (fst (PM_row_handler demo_arch demo_heap 8000 (demo_core\<lparr>plane := 1\<rparr>))) = 1280"
    using period_update [of demo_arch demo_heap 8000 "demo_core\<lparr>plane := 1\<rparr>"]
    by (simp add: demo_core_def)
  have b: "bitZeroPeriod (fst (PM_row_handler demo_arch demo_heap 300 (demo_core\<lparr>plane := 1\<rparr>))) = 800"
    using period_update [of demo_arch demo_heap 300 "demo_core\<lparr>plane := 1\<rparr>"]
    by (simp add: demo_core_def)
  have c: "bitZeroPeriod (fst (PM_row_handler demo_arch demo_heap 8000 (demo_core\<lparr>plane := 2\<rparr>))) = 320"
    using period_update [of demo_arch demo_heap 8000 "demo_core\<lparr>plane := 2\<rparr>"]
    by (simp add: demo_core_def)
  from a b c show ?thesis by simp
qed

section \<open>Release: properties\<close>




text \<open>
  Claim C10, as the specification states it: a second \<^verbatim>\<open>_PM_free\<close> on the same
  structure enters the release branches of \<^verbatim>\<open>screenData\<close> and \<^verbatim>\<open>addr\<close> again. It
  fails: the first \<^verbatim>\<open>_PM_free\<close> sets \<^verbatim>\<open>rgbPins\<close> to null, and the second one runs
  \<^verbatim>\<open>_PM_stop\<close> before any release branch, which reads \<^verbatim>\<open>core->rgbPins[0]\<close> through
  that null pointer.
\<close>

theorem second_free_stops_short:
  "\<exists>h' evs.
     PM_free demo_arch (Some demo_core) [] demo_heap = Inr (Some (demo_core\<lparr>rgbPins := 0\<rparr>), h', evs) \<and>
     screenData (demo_core\<lparr>rgbPins := 0\<rparr>) = 102 \<and> addr (demo_core\<lparr>rgbPins := 0\<rparr>) = 101 \<and>
     parallel (demo_core\<lparr>rgbPins := 0\<rparr>) = 1 \<and>
     released h' = [102, 101, 100] \<and>
     PM_free demo_arch (Some (demo_core\<lparr>rgbPins := 0\<rparr>)) [] h' = Inl InvalidPointer"
proof -
  from free_defined_returns [OF demo_defined(1,2), of demo_arch "[]"]
  obtain c' h' evs where
    f: "PM_free demo_arch (Some demo_core) [] demo_heap = Inr (Some c', h', evs)"
    by blast
  have w: "stop_wait demo_arch demo_heap [] demo_core = Some (demo_core, [])"
    using demo_defined(1) by (rule stop_wait_quiet)
  from free_released(1) [OF f] w have c': "c' = demo_core\<lparr>rgbPins := 0\<rparr>"
    by (auto simp add: demo_defined)
  have r: "released h' = [102, 101, 100]"
    using free_released(2) [OF f] by (simp add: demo_defined non_null_def)
  have "parallel demo_core \<noteq> 0" by (simp add: demo_defined)
  from free_again(1) [OF f this, of "[]"]
  have "PM_free demo_arch (Some c') [] h' = Inl InvalidPointer" .
  with f r show ?thesis unfolding c' by (auto simp add: demo_defined)
qed

text \<open>
  Claim C10, amended. A \<^verbatim>\<open>_PM_free\<close> on a core that is not null returns when no
  buffer swap is pending, the OE and latch pins are bound, the pin list is live with an
  entry for each RGB pin, and the pointers that are not null are distinct live
  allocations. Whenever it returns, it has handed \<^verbatim>\<open>screenData\<close>, \<^verbatim>\<open>addr\<close> and
  \<^verbatim>\<open>rgbPins\<close> to \<^verbatim>\<open>_PM_FREE\<close> where they were not null and has set only \<^verbatim>\<open>rgbPins\<close>
  to null: \<^verbatim>\<open>screenData\<close> and \<^verbatim>\<open>addr\<close> keep their values, which no longer point to
  live memory. A second \<^verbatim>\<open>_PM_free\<close> on the same structure does not release them
  again in a defined way: with at least one set of RGB pins (\<^verbatim>\<open>parallel\<close> not 0) its
  \<^verbatim>\<open>_PM_stop\<close> reads the pin list through the null \<^verbatim>\<open>rgbPins\<close> before any release
  branch; with \<^verbatim>\<open>parallel = 0\<close> it reaches the first release branch whose pointer is
  not null and hands the dead address to \<^verbatim>\<open>_PM_FREE\<close>.
\<close>

theorem free_leaves_dangling:
  "(\<not> swapBuffers core \<and> free_defined h core \<longrightarrow>
      (\<exists>core' h' evs. PM_free a (Some core) es h = Inr (Some core', h', evs))) \<and>
   (\<forall>core' h' evs. PM_free a (Some core) es h = Inr (Some core', h', evs) \<longrightarrow>
      rgbPins core' = 0 \<and> screenData core' = screenData core \<and> addr core' = addr core \<and>
      (\<exists>w evw. stop_wait a h es core = Some (w, evw) \<and>
         core' = (if rgbPins core \<noteq> 0 then w\<lparr>rgbPins := 0\<rparr> else w)) \<and>
      released h' = released h @ non_null [screenData core, addr core, rgbPins core] \<and>
      (screenData core \<noteq> 0 \<longrightarrow> blocks h' (screenData core) = None) \<and>
      (addr core \<noteq> 0 \<longrightarrow> blocks h' (addr core) = None) \<and>
      (\<forall>es2.
         (parallel core \<noteq> 0 \<longrightarrow> PM_free a (Some core') es2 h' = Inl InvalidPointer) \<and>
         (parallel core = 0 \<and> (screenData core \<noteq> 0 \<or> addr core \<noteq> 0) \<longrightarrow>
            PM_free a (Some core') es2 h' = Inl ReleaseOfDead) \<and>
         (parallel core = 0 \<and> screenData core = 0 \<and> addr core = 0 \<longrightarrow>
            (\<exists>evs2. PM_free a (Some core') es2 h' = Inr (Some core', h', evs2)))))"
  (is "?returns \<and> ?effect")
proof (rule conjI)
  show ?returns by (simp add: free_defined_returns)
next
  show ?effect
  proof (intro allI, rule impI)
    fix core' h' evs
    assume f: "PM_free a (Some core) es h = Inr (Some core', h', evs)"
    note r = free_released [OF f]
    from r(1) have c: "rgbPins core' = 0" "screenData core' = screenData core"
        "addr core' = addr core"
        "\<exists>w evw. stop_wait a h es core = Some (w, evw) \<and>
           core' = (if rgbPins core \<noteq> 0 then w\<lparr>rgbPins := 0\<rparr> else w)"
      by auto
    have again: "\<forall>es2.
           (parallel core \<noteq> 0 \<longrightarrow> PM_free a (Some core') es2 h' = Inl InvalidPointer) \<and>
           (parallel core = 0 \<and> (screenData core \<noteq> 0 \<or> addr core \<noteq> 0) \<longrightarrow>
              PM_free a (Some core') es2 h' = Inl ReleaseOfDead) \<and>
           (parallel core = 0 \<and> screenData core = 0 \<and> addr core = 0 \<longrightarrow>
              (\<exists>evs2. PM_free a (Some core') es2 h' = Inr (Some core', h', evs2)))"
      using free_again [OF f] by blast
    from c r(2,3,4) again
    show "rgbPins core' = 0 \<and> screenData core' = screenData core \<and> addr core' = addr core \<and>
        (\<exists>w evw. stop_wait a h es core = Some (w, evw) \<and>
           core' = (if rgbPins core \<noteq> 0 then w\<lparr>rgbPins := 0\<rparr> else w)) \<and>
        released h' = released h @ non_null [screenData core, addr core, rgbPins core] \<and>
        (screenData core \<noteq> 0 \<longrightarrow> blocks h' (screenData core) = None) \<and>
        (addr core \<noteq> 0 \<longrightarrow> blocks h' (addr core) = None) \<and>
        (\<forall>es2.
           (parallel core \<noteq> 0 \<longrightarrow> PM_free a (Some core') es2 h' = Inl InvalidPointer) \<and>
           (parallel core = 0 \<and> (screenData core \<noteq> 0 \<or> addr core \<noteq> 0) \<longrightarrow>
              PM_free a (Some core') es2 h' = Inl ReleaseOfDead) \<and>
           (parallel core = 0 \<and> screenData core = 0 \<and> addr core = 0 \<longrightarrow>
              (\<exists>evs2. PM_free a (Some core') es2 h' = Inr (Some core', h', evs2))))"
      by (intro conjI)
  qed
qed

theorem free_leaves_dangling_witness:
  "\<not> swapBuffers demo_core \<and> free_defined demo_heap demo_core \<and>
   (\<exists>core' h' evs.
      PM_free demo_arch (Some demo_core) [] demo_heap = Inr (Some core', h', evs) \<and>
      rgbPins core' = 0 \<and> screenData core' = 102 \<and> addr core' = 101 \<and>
      released h' = [102, 101, 100] \<and> blocks h' 102 = None \<and> blocks h' 101 = None \<and>
      PM_free demo_arch (Some core') [300] h' = Inl InvalidPointer) \<and>
   \<not> swapBuffers (demo_core\<lparr>parallel := 0\<rparr>) \<and> free_defined demo_heap (demo_core\<lparr>parallel := 0\<rparr>) \<and>
   (\<exists>core' h' evs.
      PM_free demo_arch (Some (demo_core\<lparr>parallel := 0\<rparr>)) [] demo_heap = Inr (Some core', h', evs) \<and>
      released h' = [102, 101, 100] \<and>
      PM_free demo_arch (Some core') [] h' = Inl ReleaseOfDead)"
proof -
  let ?z = "demo_core\<lparr>parallel := 0\<rparr>"
  have z: "\<not> swapBuffers ?z" "free_defined demo_heap ?z" "screenData ?z = 102" "addr ?z = 101"
    "rgbPins ?z = 100" "parallel ?z = 0"
    by (simp_all add: free_defined_def demo_core_def rgbPins_table_def demo_heap_def)
  note t = free_leaves_dangling [of demo_core demo_heap demo_arch "[]"]
  from t demo_defined(1,2) obtain c' h' evs where
    f: "PM_free demo_arch (Some demo_core) [] demo_heap = Inr (Some c', h', evs)"
    by blast
  note p = t [THEN conjunct2, rule_format, OF f]
  from p have a: "rgbPins c' = 0" "screenData c' = 102" "addr c' = 101"
    "released h' = [102, 101, 100]" "blocks h' 102 = None" "blocks h' 101 = None"
    by (simp_all add: demo_defined non_null_def)
  from p have "\<forall>es2. parallel demo_core \<noteq> 0 \<longrightarrow>
      PM_free demo_arch (Some c') es2 h' = Inl InvalidPointer"
    by blast
  then have a2: "PM_free demo_arch (Some c') [300] h' = Inl InvalidPointer"
    by (simp add: demo_defined)
  from f a a2 have first: "\<exists>core' h' evs.
      PM_free demo_arch (Some demo_core) [] demo_heap = Inr (Some core', h', evs) \<and>
      rgbPins core' = 0 \<and> screenData core' = 102 \<and> addr core' = 101 \<and>
      released h' = [102, 101, 100] \<and> blocks h' 102 = None \<and> blocks h' 101 = None \<and>
      PM_free demo_arch (Some core') [300] h' = Inl InvalidPointer"
    by blast
  note u = free_leaves_dangling [of ?z demo_heap demo_arch "[]"]
  from u z(1,2) obtain c2 h2 evs2 where
    g: "PM_free demo_arch (Some ?z) [] demo_heap = Inr (Some c2, h2, evs2)"
    by blast
  note q = u [THEN conjunct2, rule_format, OF g]
  from q have b: "released h2 = [102, 101, 100]"
    by (simp add: z demo_defined non_null_def)
  from q have "\<forall>es2. parallel ?z = 0 \<and> (screenData ?z \<noteq> 0 \<or> addr ?z \<noteq> 0) \<longrightarrow>
      PM_free demo_arch (Some c2) es2 h2 = Inl ReleaseOfDead"
    by blast
  then have b2: "PM_free demo_arch (Some c2) [] h2 = Inl ReleaseOfDead"
    by (simp add: z)
  from g b b2 have second: "\<exists>core' h' evs.
      PM_free demo_arch (Some ?z) [] demo_heap = Inr (Some core', h', evs) \<and>
      released h' = [102, 101, 100] \<and>
      PM_free demo_arch (Some core') [] h' = Inl ReleaseOfDead"
    by blast
  from demo_defined(1,2) z(1,2) first second show ?thesis by (intro conjI)
qed

end
